(* ===== verification/Prelude.thy ===== *)
theory Prelude
  imports Main "HOL-Library.Word"
begin

text \<open>
  Shared vocabulary of the development: the types that name Python's values in the model
  (code points, \<open>str\<close>, bytes), the exceptions the script can raise, the bind of the
  exception-as-sum type, and generic lemmas on lists that the string and driver theories
  use. The collections \<open>py_simps\<close> and \<open>io_simps\<close> gather the characteristic
  equations of the Python built-ins and of the I/O primitives, so that component proofs
  evaluate them with \<open>simp add: py_simps\<close> or \<open>simp add: io_simps\<close>.
\<close>

named_theorems py_simps "characteristic equations of the modelled Python built-ins"
named_theorems io_simps "characteristic equations of the modelled I/O primitives"

section \<open>Python values\<close>

text \<open>
  A Python 3 \<open>str\<close> is a sequence of Unicode code points; a \<open>bytes\<close> object is a
  sequence of 8-bit values. The script's literals are ASCII, written with \<open>pystr_of\<close>.
\<close>

type_synonym codepoint = nat
type_synonym pystr = "codepoint list"
type_synonym byte = "8 word"
type_synonym bytes = "byte list"

definition pystr_of :: "string \<Rightarrow> pystr" where
  "pystr_of s = map of_char s"

section \<open>Exceptions\<close>

text \<open>
  The exceptions the script can raise; none is caught, so each ends the run with a
  traceback. \<open>UnicodeDecodeError\<close> carries the offset of the first byte that cannot be
  decoded, \<open>FileNotFoundError\<close> the program that could not be launched.
\<close>

datatype py_error =
    IndexError
  | UnicodeDecodeError nat
  | FileNotFoundError pystr

text \<open>Sequencing of computations that may raise: the exception propagates.\<close>

definition ebind :: "py_error + 'a \<Rightarrow> ('a \<Rightarrow> py_error + 'b) \<Rightarrow> py_error + 'b" where
  "ebind r f = (case r of Inl e \<Rightarrow> Inl e | Inr a \<Rightarrow> f a)"

section \<open>Lemmas: Python values\<close>

lemma pystr_of_Nil [simp]: "pystr_of [] = []"
  by (simp add: pystr_of_def)

lemma pystr_of_Cons [simp]: "pystr_of (c # s) = of_char c # pystr_of s"
  by (simp add: pystr_of_def)

lemma pystr_of_append [simp]: "pystr_of (s @ t) = pystr_of s @ pystr_of t"
  by (simp add: pystr_of_def)

lemma pystr_of_inject [simp]: "pystr_of s = pystr_of t \<longleftrightarrow> s = t"
  by (simp add: pystr_of_def inj_of_char inj_map_eq_map)

lemma length_pystr_of [simp]: "length (pystr_of s) = length s"
  by (simp add: pystr_of_def)

lemma set_pystr_of: "set (pystr_of s) = of_char ` set s"
  by (simp add: pystr_of_def)

section \<open>Lemmas: Exceptions\<close>

lemma ebind_Inl [simp]: "ebind (Inl e) f = Inl e"
  by (simp add: ebind_def)

lemma ebind_Inr [simp]: "ebind (Inr a) f = f a"
  by (simp add: ebind_def)

lemma ebind_eq_Inr:
  "ebind r f = Inr b \<longleftrightarrow> (\<exists>a. r = Inr a \<and> f a = Inr b)"
  by (cases r) auto

lemma ebind_eq_Inl:
  "ebind r f = Inl e \<longleftrightarrow> r = Inl e \<or> (\<exists>a. r = Inr a \<and> f a = Inl e)"
  by (cases r) auto

section \<open>Lists\<close>

lemma length_dropWhile_less:
  "xs \<noteq> [] \<Longrightarrow> P (hd xs) \<Longrightarrow> length (dropWhile P xs) < length xs"
  by (cases xs) (auto intro: le_imp_less_Suc length_dropWhile_le)

lemma dropWhile_hd_not:
  "dropWhile P xs = y # ys \<Longrightarrow> \<not> P y"
  using hd_dropWhile [of P xs] by simp

lemma last_dropWhile:
  "dropWhile P xs \<noteq> [] \<Longrightarrow> last (dropWhile P xs) = last xs"
  by (induction xs) auto

text \<open>Base-64 digits of a number, as UTF-8 spreads a code point over continuation bytes.\<close>

lemma digits2: "(c::nat) = 64 * (c div 64) + c mod 64"
  by simp

lemma digits3: "(c::nat) = 4096 * (c div 4096) + 64 * (c div 64 mod 64) + c mod 64"
proof -
  have m: "c mod 4096 = 64 * (c div 64 mod 64) + c mod 64"
    using mod_mult2_eq [of c 64 64] by simp
  have "c = 4096 * (c div 4096) + c mod 4096" by simp
  then show ?thesis unfolding m by (simp only: add.assoc)
qed

lemma digits4:
  "(c::nat) = 262144 * (c div 262144) + 4096 * (c div 4096 mod 64) + 64 * (c div 64 mod 64) + c mod 64"
proof -
  have "c div 64 mod 4096 = 64 * (c div 64 div 64 mod 64) + c div 64 mod 64"
    using mod_mult2_eq [of "c div 64" 64 64] by simp
  moreover have "c div 64 div 64 = c div 4096" by (simp add: div_mult2_eq [symmetric])
  ultimately have m1: "c div 64 mod 4096 = 64 * (c div 4096 mod 64) + c div 64 mod 64" by simp
  have m: "c mod 262144 = 64 * (c div 64 mod 4096) + c mod 64"
    using mod_mult2_eq [of c 64 4096] by simp
  have "c = 262144 * (c div 262144) + c mod 262144" by simp
  then show ?thesis unfolding m m1 by (simp only: add.assoc add_mult_distrib2 mult.assoc)
qed

lemma unat_of_nat_byte [simp]: "n < 256 \<Longrightarrow> unat (of_nat n :: byte) = n"
  by (simp add: unat_of_nat)

end
