(* ===== verification/PyStr.thy ===== *)
theory PyStr
  imports Prelude
begin

text \<open>
  The Python \<open>str\<close> and \<open>list\<close> operations that \<^verbatim>\<open>src/create_report.py\<close> applies
  to the text printed by \<^verbatim>\<open>lsusb\<close> and to the command lines it builds:
  \<open>str.isspace\<close> (the whitespace class used by \<open>strip()\<close> and \<open>split()\<close>),
  \<open>str.strip()\<close> and \<open>str.strip(chars)\<close>, \<open>str.split()\<close>, \<open>str.split(sep)\<close>
  for a one-character separator, \<open>sep.join(list)\<close> and \<open>list[i]\<close>. Each follows
  CPython's algorithm (\<^verbatim>\<open>Objects/stringlib/split.h\<close>, \<open>_PyUnicode_XStrip\<close>). The
  lemmas characterise them: what \<open>strip()\<close> leaves, the tokens of \<open>split()\<close>, and
  the round trips between \<open>split\<close> and \<open>join\<close>.
\<close>

section \<open>Whitespace\<close>

text \<open>
  \<open>Py_UNICODE_ISSPACE\<close>: the code points with bidirectional class WS, B or S, or
  category Zs. \<open>str.split()\<close> and \<open>str.strip()\<close> without argument use this class.
\<close>

definition py_isspace :: "codepoint \<Rightarrow> bool" where
  "py_isspace c \<longleftrightarrow>
     (9 \<le> c \<and> c \<le> 13) \<or> (28 \<le> c \<and> c \<le> 32) \<or> c = 0x85 \<or> c = 0xA0 \<or> c = 0x1680 \<or>
     (0x2000 \<le> c \<and> c \<le> 0x200A) \<or> c = 0x2028 \<or> c = 0x2029 \<or> c = 0x202F \<or>
     c = 0x205F \<or> c = 0x3000"

section \<open>strip\<close>

text \<open>
  \<open>s.strip(chars)\<close> removes the longest prefix and then the longest suffix whose
  characters all belong to the class; \<open>s.strip()\<close> uses the whitespace class.
\<close>

definition py_strip_by :: "(codepoint \<Rightarrow> bool) \<Rightarrow> pystr \<Rightarrow> pystr" where
  "py_strip_by P s = rev (dropWhile P (rev (dropWhile P s)))"

definition py_strip :: "pystr \<Rightarrow> pystr" where
  "py_strip s = py_strip_by py_isspace s"

definition py_strip_chars :: "pystr \<Rightarrow> pystr \<Rightarrow> pystr" where
  "py_strip_chars chars s = py_strip_by (\<lambda>c. c \<in> set chars) s"

section \<open>split() on whitespace\<close>

text \<open>
  CPython's \<open>split_whitespace\<close>: skip a run of whitespace; stop at the end of the
  string; otherwise take the longest run of non-whitespace as the next token and go on
  after it. The recursion is on what is left after the token, which is shorter because
  the token is not empty.
\<close>

function py_split_ws :: "pystr \<Rightarrow> pystr list" where
  "py_split_ws s =
     (let t = dropWhile py_isspace s in
      if t = [] then []
      else takeWhile (\<lambda>c. \<not> py_isspace c) t # py_split_ws (dropWhile (\<lambda>c. \<not> py_isspace c) t))"
  by pat_completeness auto
termination
proof (relation "measure length")
  fix s t
  assume t: "t = dropWhile py_isspace s" and ne: "t \<noteq> []"
  then have "\<not> py_isspace (hd t)" by (simp add: hd_dropWhile)
  with ne have "length (dropWhile (\<lambda>c. \<not> py_isspace c) t) < length t"
    by (simp add: length_dropWhile_less)
  also have "length t \<le> length s" using t by (simp add: length_dropWhile_le)
  finally show "(dropWhile (\<lambda>c. \<not> py_isspace c) t, s) \<in> measure length" by simp
qed simp

declare py_split_ws.simps [simp del]

section \<open>split(sep) and join\<close>

text \<open>
  CPython's \<open>split_char\<close>: scan for the separator, emit the piece before it and go on
  after it; at the end emit the rest, even when empty. The current piece is the
  accumulator.
\<close>

fun split_char_from :: "codepoint \<Rightarrow> pystr \<Rightarrow> pystr \<Rightarrow> pystr list" where
  "split_char_from c cur [] = [cur]"
| "split_char_from c cur (x # xs) =
     (if x = c then cur # split_char_from c [] xs else split_char_from c (cur @ [x]) xs)"

definition py_split_char :: "codepoint \<Rightarrow> pystr \<Rightarrow> pystr list" where
  "py_split_char c s = split_char_from c [] s"

text \<open>\<open>sep.join(xs)\<close>: the pieces with the separator between neighbours.\<close>

fun py_join :: "pystr \<Rightarrow> pystr list \<Rightarrow> pystr" where
  "py_join sep [] = []"
| "py_join sep [x] = x"
| "py_join sep (x # y # ys) = x @ sep @ py_join sep (y # ys)"

section \<open>List indexing\<close>

text \<open>\<open>xs[i]\<close> for an index \<open>i \<ge> 0\<close> (every index the script uses is a literal or
  comes from \<open>range\<close>): the element, or \<open>IndexError\<close> past the end.\<close>

definition py_index :: "'a list \<Rightarrow> nat \<Rightarrow> py_error + 'a" where
  "py_index xs i = (if i < length xs then Inr (xs ! i) else Inl IndexError)"

section \<open>The layout of a split() result\<close>

text \<open>\<open>weave [w0, ..., wn] [t1, ..., tn]\<close> is the string \<open>w0 t1 w1 ... tn wn\<close>;
  \<open>ws_layout ws ts\<close> says that the \<open>w\<close>'s are runs of whitespace and the \<open>t\<close>'s
  non-empty tokens without whitespace, each followed by whitespace or by the end, so that
  no token can be extended.\<close>

fun weave :: "'a list list \<Rightarrow> 'a list list \<Rightarrow> 'a list" where
  "weave (w # ws) (t # ts) = w @ t @ weave ws ts"
| "weave ws [] = concat ws"
| "weave [] ts = concat ts"

fun ws_layout :: "pystr list \<Rightarrow> pystr list \<Rightarrow> bool" where
  "ws_layout [w] [] \<longleftrightarrow> (\<forall>c \<in> set w. py_isspace c)"
| "ws_layout (w # ws) (t # ts) \<longleftrightarrow>
     (\<forall>c \<in> set w. py_isspace c) \<and> t \<noteq> [] \<and> (\<forall>c \<in> set t. \<not> py_isspace c) \<and>
     (weave ws ts = [] \<or> py_isspace (hd (weave ws ts))) \<and> ws_layout ws ts"
| "ws_layout _ _ \<longleftrightarrow> False"

section \<open>Lemmas: Whitespace\<close>

lemma py_isspace_ascii [py_simps]:
  "py_isspace 32" "py_isspace 9" "py_isspace 10" "py_isspace 13"
  "\<not> py_isspace 58" "\<not> py_isspace 46"
  by (simp_all add: py_isspace_def)

section \<open>Lemmas: strip\<close>

text \<open>The string is empty after stripping exactly when every character is in the class.\<close>

lemma py_strip_by_Nil_iff [py_simps]:
  "py_strip_by P s = [] \<longleftrightarrow> (\<forall>c \<in> set s. P c)"
proof -
  have "py_strip_by P s = [] \<longleftrightarrow> (\<forall>c \<in> set (dropWhile P s). P c)"
    by (simp add: py_strip_by_def)
  also have "\<dots> \<longleftrightarrow> (\<forall>c \<in> set s. P c)"
    by (induction s) auto
  finally show ?thesis .
qed

text \<open>What strip returns is a contiguous piece of its argument that neither begins nor ends
  with a character of the class.\<close>

lemma py_strip_by_infix:
  "\<exists>a b. s = a @ py_strip_by P s @ b \<and> (\<forall>c \<in> set a. P c) \<and> (\<forall>c \<in> set b. P c)"
proof -
  let ?t = "dropWhile P s"
  have s: "s = takeWhile P s @ ?t" by simp
  have t: "rev ?t = takeWhile P (rev ?t) @ dropWhile P (rev ?t)" by simp
  then have "?t = py_strip_by P s @ rev (takeWhile P (rev ?t))"
    by (metis py_strip_by_def rev_append rev_rev_ident)
  with s have "s = takeWhile P s @ py_strip_by P s @ rev (takeWhile P (rev ?t))"
    by simp
  then show ?thesis
    by (metis set_rev set_takeWhileD)
qed

lemma py_strip_by_ends:
  assumes "py_strip_by P s \<noteq> []"
  shows "\<not> P (hd (py_strip_by P s)) \<and> \<not> P (last (py_strip_by P s))"
proof
  let ?t = "dropWhile P s"
  let ?u = "dropWhile P (rev ?t)"
  have t: "?t \<noteq> []" using assms by (cases ?t) (auto simp: py_strip_by_def)
  have u: "?u \<noteq> []" using assms by (simp add: py_strip_by_def)
  then show "\<not> P (last (py_strip_by P s))"
    by (simp add: py_strip_by_def hd_dropWhile last_rev)
  have "hd (py_strip_by P s) = last ?u"
    using u by (simp add: py_strip_by_def hd_rev)
  also have "\<dots> = hd ?t"
    using u t by (simp add: last_dropWhile last_rev)
  finally show "\<not> P (hd (py_strip_by P s))"
    using t by (simp add: hd_dropWhile)
qed

text \<open>Stripping a suffix of class characters from a string without them.\<close>

lemma py_strip_by_suffix:
  assumes "\<forall>c \<in> set s. \<not> P c" and "\<forall>c \<in> set b. P c"
  shows "py_strip_by P (s @ b) = s"
proof (cases s)
  case Nil
  then show ?thesis using assms(2) by (simp add: py_strip_by_Nil_iff)
next
  case (Cons x xs)
  then have "dropWhile P (s @ b) = s @ b" using assms(1) by simp
  moreover have "dropWhile P (rev b @ rev s) = dropWhile P (rev s)"
    using assms(2) by (intro dropWhile_append2) simp
  moreover have "hd (rev s) \<in> set s"
    using Cons by (simp only: hd_rev) (rule last_in_set, simp)
  then have "dropWhile P (rev s) = rev s"
    using assms(1) by (simp add: dropWhile_eq_self_iff)
  ultimately show ?thesis by (simp add: py_strip_by_def)
qed

section \<open>Lemmas: split() on whitespace\<close>

text \<open>The three shapes of input, as equations that evaluate \<open>split()\<close> token by token.\<close>

lemma py_split_ws_Nil [py_simps]: "py_split_ws [] = []"
  by (simp add: py_split_ws.simps)

lemma py_split_ws_space [py_simps]:
  "py_isspace c \<Longrightarrow> py_split_ws (c # s) = py_split_ws s"
  by (subst (1 2) py_split_ws.simps) simp

lemma py_split_ws_token:
  assumes "w \<noteq> []" and "\<forall>c \<in> set w. \<not> py_isspace c"
    and "rest = [] \<or> py_isspace (hd rest)"
  shows "py_split_ws (w @ rest) = w # py_split_ws rest"
proof -
  obtain c w' where w: "w = c # w'" using assms(1) by (cases w) auto
  have "takeWhile (\<lambda>c. \<not> py_isspace c) (w @ rest) = w"
    using assms(2,3) by (cases rest) (auto simp: takeWhile_append2)
  moreover have "dropWhile (\<lambda>c. \<not> py_isspace c) (w @ rest) = rest"
    using assms(2,3) by (cases rest) (auto simp: dropWhile_append2)
  moreover have "dropWhile py_isspace (w @ rest) = w @ rest"
    using assms(2) w by simp
  ultimately show ?thesis
    using assms(1) by (subst py_split_ws.simps) (simp add: Let_def)
qed

lemma py_split_ws_Nil_iff [py_simps]: "py_split_ws s = [] \<longleftrightarrow> (\<forall>c \<in> set s. py_isspace c)"
  by (subst py_split_ws.simps) (simp add: Let_def)

text \<open>A string laid out as whitespace runs and maximal tokens splits into exactly those
  tokens, and every string has such a layout for its tokens.\<close>

lemma py_split_ws_spaces:
  "\<forall>c \<in> set w. py_isspace c \<Longrightarrow> py_split_ws (w @ s) = py_split_ws s"
  by (induction w) (simp_all add: py_split_ws_space)

lemma py_split_ws_weave: "ws_layout ws ts \<Longrightarrow> py_split_ws (weave ws ts) = ts"
proof (induction ws ts rule: ws_layout.induct)
  case (1 w)
  then show ?case using py_split_ws_spaces [of w "[]"] by (simp add: py_split_ws_Nil)
next
  case (2 w ws t ts)
  then have "py_split_ws (weave (w # ws) (t # ts)) = py_split_ws (t @ weave ws ts)"
    by (simp add: py_split_ws_spaces)
  also have "\<dots> = t # py_split_ws (weave ws ts)"
    using "2.prems" by (intro py_split_ws_token) simp_all
  finally show ?case using 2 by simp
qed simp_all

lemma py_split_ws_layout: "\<exists>ws. ws_layout ws (py_split_ws s) \<and> weave ws (py_split_ws s) = s"
proof (induction s rule: py_split_ws.induct)
  case (1 s)
  let ?P = "\<lambda>c. \<not> py_isspace c"
  let ?t = "dropWhile py_isspace s"
  let ?w = "takeWhile py_isspace s"
  show ?case
  proof (cases "?t = []")
    case True
    then have "py_split_ws s = []" and "\<forall>c \<in> set s. py_isspace c"
      by (simp_all add: py_split_ws.simps [of s])
    then show ?thesis by (intro exI [of _ "[s]"]) simp
  next
    case False
    let ?tok = "takeWhile ?P ?t" and ?rest = "dropWhile ?P ?t"
    obtain ws where ws: "ws_layout ws (py_split_ws ?rest)" "weave ws (py_split_ws ?rest) = ?rest"
      using "1.IH" [OF refl False] by blast
    have eq: "py_split_ws s = ?tok # py_split_ws ?rest"
      using False by (simp add: py_split_ws.simps [of s] Let_def)
    have tok: "?tok \<noteq> []" using False by (simp add: takeWhile_eq_Nil_iff hd_dropWhile)
    have toks: "\<forall>c \<in> set ?tok. ?P c" and sp: "\<forall>c \<in> set ?w. py_isspace c"
      by (auto dest: set_takeWhileD)
    have rest: "?rest = [] \<or> py_isspace (hd ?rest)"
      using hd_dropWhile [of ?P ?t] by auto
    have "ws_layout (?w # ws) (?tok # py_split_ws ?rest)"
      unfolding ws_layout.simps(2) ws(2) using tok toks sp rest ws(1) by blast
    moreover have "weave (?w # ws) (?tok # py_split_ws ?rest) = s"
      by (simp add: ws(2))
    ultimately show ?thesis unfolding eq by (intro exI [of _ "?w # ws"] conjI)
  qed
qed

section \<open>Lemmas: split(sep) and join\<close>

lemma py_join_Cons [py_simps]:
  "ys \<noteq> [] \<Longrightarrow> py_join sep (x # ys) = x @ sep @ py_join sep ys"
  by (cases ys) auto

lemma split_char_from_not_Nil: "split_char_from c cur s \<noteq> []"
  by (induction c cur s rule: split_char_from.induct) auto

lemma split_char_from_join: "py_join [c] (split_char_from c cur s) = cur @ s"
proof (induction c cur s rule: split_char_from.induct)
  case (1 c cur)
  then show ?case by simp
next
  case (2 c cur x xs)
  then show ?case
    by (auto simp: py_join_Cons split_char_from_not_Nil)
qed

lemma split_char_from_pieces: "p \<in> set (split_char_from c cur s) \<Longrightarrow> c \<notin> set cur \<Longrightarrow> c \<notin> set p"
  by (induction c cur s rule: split_char_from.induct) (auto split: if_splits)

lemma length_split_char_from: "length (split_char_from c cur s) = Suc (count_list s c)"
  by (induction c cur s rule: split_char_from.induct) auto

lemma py_split_char_pieces: "p \<in> set (py_split_char c s) \<Longrightarrow> c \<notin> set p"
  by (simp add: py_split_char_def split_char_from_pieces)

lemma length_py_split_char: "length (py_split_char c s) = Suc (count_list s c)"
  by (simp add: py_split_char_def length_split_char_from)

lemma split_char_from_append:
  "c \<notin> set p \<Longrightarrow> split_char_from c cur (p @ rest) = split_char_from c (cur @ p) rest"
  by (induction p arbitrary: cur) auto

lemma split_char_from_sep_append:
  "split_char_from c cur (xs @ c # ys) = split_char_from c cur xs @ split_char_from c [] ys"
  by (induction xs arbitrary: cur) auto

lemma py_split_char_sep_append:
  "py_split_char c (xs @ c # ys) = py_split_char c xs @ py_split_char c ys"
  by (simp add: py_split_char_def split_char_from_sep_append)

lemma py_split_char_no_sep: "c \<notin> set s \<Longrightarrow> py_split_char c s = [s]"
  using split_char_from_append [of c s "[]" "[]"] by (simp add: py_split_char_def)

text \<open>The converse round trip: pieces without the separator are recovered from their join.\<close>

lemma split_char_from_of_join:
  "ps \<noteq> [] \<Longrightarrow> \<forall>p \<in> set ps. c \<notin> set p \<Longrightarrow>
     split_char_from c cur (py_join [c] ps) = (cur @ hd ps) # tl ps"
proof (induction ps arbitrary: cur)
  case (Cons x xs)
  show ?case
  proof (cases "xs = []")
    case True
    with Cons.prems show ?thesis
      using split_char_from_append [where rest = "[]"] by simp
  next
    case False
    with Cons have "split_char_from c [] (py_join [c] xs) = xs"
      by simp
    with Cons.prems False show ?thesis
      by (simp add: py_join_Cons split_char_from_append)
  qed
qed simp

text \<open>The converse round trip: pieces without the separator are recovered from their join.\<close>

lemma py_split_char_of_join:
  assumes "ps \<noteq> []" and "\<forall>p \<in> set ps. c \<notin> set p"
  shows "py_split_char c (py_join [c] ps) = ps"
  using split_char_from_of_join [OF assms, of "[]"] assms(1)
  by (simp add: py_split_char_def)

text \<open>Lines each ended by the separator split into those lines and a last empty piece.\<close>

lemma set_py_join: "c \<in> set (py_join sep ts) \<Longrightarrow> c \<in> set sep \<or> (\<exists>t \<in> set ts. c \<in> set t)"
  by (induction sep ts rule: py_join.induct) auto

lemma concat_lines_join: "concat (map (\<lambda>l. l @ [c]) ls) = py_join [c] (ls @ [[]])"
  by (induction ls) (simp_all add: py_join_Cons)

lemma py_split_char_lines:
  "\<forall>l \<in> set ls. c \<notin> set l \<Longrightarrow> py_split_char c (concat (map (\<lambda>l. l @ [c]) ls)) = ls @ [[]]"
  unfolding concat_lines_join by (rule py_split_char_of_join) auto

section \<open>Lemmas: List indexing\<close>

lemma py_index_Inr_iff [py_simps]: "py_index xs i = Inr x \<longleftrightarrow> i < length xs \<and> xs ! i = x"
  by (auto simp: py_index_def)

lemma py_index_Inl_iff [py_simps]: "py_index xs i = Inl e \<longleftrightarrow> length xs \<le> i \<and> e = IndexError"
  by (auto simp: py_index_def)

lemma py_index_Cons [py_simps]:
  "py_index (x # xs) 0 = Inr x" "py_index (x # xs) (Suc i) = py_index xs i"
  "py_index [] i = Inl IndexError"
  by (simp_all add: py_index_def)

section \<open>Properties\<close>

text \<open>C18: joining the pieces of \<open>s.split(c)\<close> with \<open>c\<close> gives back \<open>s\<close>; there is one
  piece more than there are separators, and no piece contains the separator.\<close>

theorem py_split_char_roundtrip:
  "py_join [c] (py_split_char c s) = s \<and> length (py_split_char c s) = Suc (count_list s c) \<and>
   (\<forall>p \<in> set (py_split_char c s). c \<notin> set p)"
  by (simp add: py_split_char_def split_char_from_join length_split_char_from split_char_from_pieces)

theorem py_split_char_roundtrip_witness:
  "py_join [10] (py_split_char 10 [65, 10, 66]) = [65, 10, 66] \<and>
   py_split_char 10 [65, 10, 66] = [[65], [66]]"
  using py_split_char_roundtrip [of 10 "[65, 10, 66]"] by (simp add: py_split_char_def)

text \<open>C19: pieces that do not contain the separator are recovered from their join.\<close>

theorem py_split_char_of_join_roundtrip:
  assumes "ps \<noteq> []" and "\<forall>p \<in> set ps. c \<notin> set p"
  shows "py_split_char c (py_join [c] ps) = ps"
  using split_char_from_of_join [OF assms, of "[]"] assms(1)
  by (simp add: py_split_char_def)

theorem py_split_char_of_join_roundtrip_witness:
  "py_split_char 58 (py_join [58] [[52, 49], [51, 48]]) = [[52, 49], [51, 48]]"
  by (rule py_split_char_of_join_roundtrip) simp_all

text \<open>C20: \<open>s.split()\<close> is completely characterised: it returns \<open>ts\<close> exactly when
  \<open>s\<close> is \<open>w0 t1 w1 ... tn wn\<close> with runs of whitespace \<open>wi\<close> and non-empty tokens
  \<open>ti\<close> without whitespace, each followed by whitespace or by the end of \<open>s\<close>. So the
  tokens are the maximal non-whitespace runs of \<open>s\<close>, in order, and the \<open>k\<close>-th
  field of an \<^verbatim>\<open>lsusb\<close> line is well defined.\<close>

theorem py_split_ws_spec:
  "py_split_ws s = ts \<longleftrightarrow> (\<exists>ws. ws_layout ws ts \<and> weave ws ts = s)"
  using py_split_ws_layout [of s] py_split_ws_weave by blast

theorem py_split_ws_spec_witness:
  "py_split_ws [32, 66, 117, 115, 9, 9, 48, 48, 50, 32] = [[66, 117, 115], [48, 48, 50]]"
  unfolding py_split_ws_spec
  by (rule exI [of _ "[[32], [9, 9], [32]]"]) (simp add: py_isspace_def)

text \<open>C21: \<open>split()\<close> recovers the words of a line whose words are joined by single spaces:
  printing command lines with \<open>' '.join\<close> and splitting them again round-trips.\<close>

lemma py_split_ws_join_aux:
  "\<forall>t \<in> set ts. t \<noteq> [] \<and> (\<forall>c \<in> set t. \<not> py_isspace c) \<Longrightarrow> py_split_ws (py_join [32] ts) = ts"
proof (induction ts)
  case (Cons x xs)
  show ?case
  proof (cases "xs = []")
    case True
    with Cons.prems show ?thesis using py_split_ws_token [of x "[]"] by (simp add: py_split_ws_Nil)
  next
    case False
    have "py_split_ws (x @ [32] @ py_join [32] xs) = x # py_split_ws ([32] @ py_join [32] xs)"
      using Cons.prems by (intro py_split_ws_token) (auto simp: py_isspace_def)
    also have "py_split_ws ([32] @ py_join [32] xs) = py_split_ws (py_join [32] xs)"
      by (simp add: py_split_ws_space py_isspace_def)
    also have "\<dots> = xs" using Cons by simp
    finally show ?thesis using False by (simp add: py_join_Cons)
  qed
qed (simp add: py_split_ws_Nil)

theorem py_split_ws_of_join:
  assumes "\<forall>t \<in> set ts. t \<noteq> [] \<and> (\<forall>c \<in> set t. \<not> py_isspace c)"
  shows "py_split_ws (py_join [32] ts) = ts"
  using assms by (rule py_split_ws_join_aux)

theorem py_split_ws_of_join_witness:
  "py_split_ws (py_join [32] [[66, 117, 115], [48, 48, 50]]) = [[66, 117, 115], [48, 48, 50]]"
  by (rule py_split_ws_of_join) (simp add: py_isspace_def)

text \<open>C22: \<open>s.strip()\<close> is empty exactly when \<open>s\<close> is all whitespace (the test
  \<open>not line.strip()\<close>); otherwise it is the piece of \<open>s\<close> between a whitespace prefix
  and a whitespace suffix, and neither begins nor ends with whitespace.\<close>

theorem py_strip_spec:
  "(py_strip s = [] \<longleftrightarrow> (\<forall>c \<in> set s. py_isspace c)) \<and>
   (\<exists>a b. s = a @ py_strip s @ b \<and> (\<forall>c \<in> set a. py_isspace c) \<and> (\<forall>c \<in> set b. py_isspace c)) \<and>
   (py_strip s \<noteq> [] \<longrightarrow> \<not> py_isspace (hd (py_strip s)) \<and> \<not> py_isspace (last (py_strip s)))"
proof -
  have "py_strip s = [] \<longleftrightarrow> (\<forall>c \<in> set s. py_isspace c)"
    unfolding py_strip_def by (rule py_strip_by_Nil_iff)
  moreover have "\<exists>a b. s = a @ py_strip s @ b \<and> (\<forall>c \<in> set a. py_isspace c) \<and> (\<forall>c \<in> set b. py_isspace c)"
    unfolding py_strip_def by (rule py_strip_by_infix)
  moreover have "py_strip s \<noteq> [] \<longrightarrow> \<not> py_isspace (hd (py_strip s)) \<and> \<not> py_isspace (last (py_strip s))"
    unfolding py_strip_def using py_strip_by_ends by blast
  ultimately show ?thesis by (intro conjI)
qed

theorem py_strip_spec_witness:
  "py_strip [9, 32, 13] = [] \<and> py_strip [32, 65, 10] \<noteq> []"
proof -
  have "py_strip [9, 32, 13] = [] \<longleftrightarrow> (\<forall>c \<in> set [9, 32, 13]. py_isspace c)"
    using py_strip_spec [of "[9, 32, 13]"] by (rule conjunct1)
  moreover have "py_strip [32, 65, 10] = [] \<longleftrightarrow> (\<forall>c \<in> set [32, 65, 10]. py_isspace c)"
    using py_strip_spec [of "[32, 65, 10]"] by (rule conjunct1)
  ultimately show ?thesis by (simp add: py_isspace_def)
qed

end
