(* ===== verification/Utf8.thy ===== *)
theory Utf8
  imports Prelude
begin

text \<open>
  \<open>bytes.decode('utf-8')\<close>, which the script applies to the output of
  \<^verbatim>\<open>lsusb\<close> (\<^verbatim>\<open>src/create_report.py\<close>, line 6), in CPython's strict mode
  (\<^verbatim>\<open>Objects/stringlib/codecs.h\<close>, \<open>utf8_decode\<close>): the start byte fixes the length of
  the sequence and the range of the first continuation byte, which excludes overlong forms,
  surrogates and code points past U+10FFFF; the code point is computed as CPython does, by
  shifting and subtracting the tag bits. An undecodable sequence raises
  \<open>UnicodeDecodeError\<close> at the offset of its start byte. The encoder of RFC 3629 is the
  reference: decoding inverts it on Unicode scalar values, and every decodable byte string
  is the encoding of what it decodes to.
\<close>

definition in_range :: "nat \<Rightarrow> nat \<Rightarrow> byte \<Rightarrow> bool" where
  "in_range lo hi b \<longleftrightarrow> lo \<le> unat b \<and> unat b \<le> hi"

text \<open>One sequence: the start byte and the bytes after it give the code point and the
  number of continuation bytes used, or \<open>None\<close> when CPython reports an error.\<close>

definition utf8_seq :: "byte \<Rightarrow> bytes \<Rightarrow> (codepoint \<times> nat) option" where
  "utf8_seq b0 bs =
     (let n0 = unat b0 in
      if n0 < 0x80 then Some (n0, 0)
      else if n0 < 0xC2 then None
      else if n0 < 0xE0 then
        (case bs of
          b1 # _ \<Rightarrow>
            if in_range 0x80 0xBF b1
            then Some (n0 * 64 + unat b1 - (0xC0 * 64 + 0x80), 1) else None
        | _ \<Rightarrow> None)
      else if n0 < 0xF0 then
        (case bs of
          b1 # b2 # _ \<Rightarrow>
            if in_range (if n0 = 0xE0 then 0xA0 else 0x80) (if n0 = 0xED then 0x9F else 0xBF) b1
               \<and> in_range 0x80 0xBF b2
            then Some (n0 * 4096 + unat b1 * 64 + unat b2 - (0xE0 * 4096 + 0x80 * 64 + 0x80), 2)
            else None
        | _ \<Rightarrow> None)
      else if n0 < 0xF5 then
        (case bs of
          b1 # b2 # b3 # _ \<Rightarrow>
            if in_range (if n0 = 0xF0 then 0x90 else 0x80) (if n0 = 0xF4 then 0x8F else 0xBF) b1
               \<and> in_range 0x80 0xBF b2 \<and> in_range 0x80 0xBF b3
            then Some (n0 * 262144 + unat b1 * 4096 + unat b2 * 64 + unat b3
                         - (0xF0 * 262144 + 0x80 * 4096 + 0x80 * 64 + 0x80), 3)
            else None
        | _ \<Rightarrow> None)
      else None)"

text \<open>The decoding loop; \<open>i\<close> is the offset of the next byte in the whole input.\<close>

function utf8_decode_at :: "nat \<Rightarrow> bytes \<Rightarrow> py_error + pystr" where
  "utf8_decode_at i [] = Inr []"
| "utf8_decode_at i (b0 # bs) =
     (case utf8_seq b0 bs of
        None \<Rightarrow> Inl (UnicodeDecodeError i)
      | Some (c, k) \<Rightarrow> ebind (utf8_decode_at (i + Suc k) (drop k bs)) (\<lambda>cs. Inr (c # cs)))"
  by pat_completeness auto
termination
  by (relation "measure (\<lambda>(i, bs). length bs)") auto

definition py_decode_utf8 :: "bytes \<Rightarrow> py_error + pystr" where
  "py_decode_utf8 bs = utf8_decode_at 0 bs"

section \<open>The reference encoder\<close>

definition utf8_scalar :: "codepoint \<Rightarrow> bool" where
  "utf8_scalar c \<longleftrightarrow> c < 0x110000 \<and> \<not> (0xD800 \<le> c \<and> c \<le> 0xDFFF)"

definition utf8_encode_cp :: "codepoint \<Rightarrow> bytes" where
  "utf8_encode_cp c =
     (if c < 0x80 then [of_nat c]
      else if c < 0x800 then [of_nat (0xC0 + c div 64), of_nat (0x80 + c mod 64)]
      else if c < 0x10000 then
        [of_nat (0xE0 + c div 4096), of_nat (0x80 + c div 64 mod 64), of_nat (0x80 + c mod 64)]
      else [of_nat (0xF0 + c div 262144), of_nat (0x80 + c div 4096 mod 64),
            of_nat (0x80 + c div 64 mod 64), of_nat (0x80 + c mod 64)])"

definition utf8_encode :: "pystr \<Rightarrow> bytes" where
  "utf8_encode cs = concat (map utf8_encode_cp cs)"

section \<open>Decoding inverts encoding\<close>

text \<open>The decoder accepts each well-formed sequence, stated over the base-64 digits of the
  code point.\<close>

lemma utf8_seq_1: "unat b0 = c \<Longrightarrow> c < 0x80 \<Longrightarrow> utf8_seq b0 rest = Some (c, 0)"
  by (simp add: utf8_seq_def)

lemma utf8_seq_2:
  assumes "unat b0 = 0xC0 + p" "unat b1 = 0x80 + r" "r < 64" "c = 64 * p + r"
    and "0x80 \<le> c" "c < 0x800"
  shows "utf8_seq b0 (b1 # rest) = Some (c, 1)"
proof -
  have "2 \<le> p" "p < 32" using assms by linarith+
  with assms show ?thesis by (simp add: utf8_seq_def in_range_def Let_def)
qed

lemma utf8_seq_3:
  assumes "unat b0 = 0xE0 + p" "unat b1 = 0x80 + q" "unat b2 = 0x80 + r" "q < 64" "r < 64"
    and "c = 4096 * p + 64 * q + r" and "0x800 \<le> c" "c < 0x10000" "\<not> (0xD800 \<le> c \<and> c \<le> 0xDFFF)"
  shows "utf8_seq b0 (b1 # b2 # rest) = Some (c, 2)"
proof -
  have p: "p < 16" using assms by linarith
  have lo: "p = 0 \<Longrightarrow> 32 \<le> q" using assms by linarith
  have hi: "p = 13 \<Longrightarrow> q < 32" using assms by linarith
  have c1: "in_range (if unat b0 = 0xE0 then 0xA0 else 0x80) (if unat b0 = 0xED then 0x9F else 0xBF) b1"
    using assms(1,2,4) lo hi by (auto simp: in_range_def)
  have c2: "in_range 0x80 0xBF b2" using assms(3,5) by (simp add: in_range_def)
  have n0: "\<not> unat b0 < 0x80" "\<not> unat b0 < 0xC2" "\<not> unat b0 < 0xE0" "unat b0 < 0xF0"
    using assms(1) p by simp_all
  have "unat b0 * 4096 + unat b1 * 64 + unat b2 - (0xE0 * 4096 + 0x80 * 64 + 0x80) = c"
    using assms(1,2,3,6) by simp
  with n0 c1 c2 show ?thesis by (simp add: utf8_seq_def Let_def)
qed

lemma utf8_seq_4:
  assumes "unat b0 = 0xF0 + p" "unat b1 = 0x80 + q" "unat b2 = 0x80 + r" "unat b3 = 0x80 + s"
    and "q < 64" "r < 64" "s < 64" and "c = 262144 * p + 4096 * q + 64 * r + s"
    and "0x10000 \<le> c" "c < 0x110000"
  shows "utf8_seq b0 (b1 # b2 # b3 # rest) = Some (c, 3)"
proof -
  have p: "p < 5" using assms by linarith
  have lo: "p = 0 \<Longrightarrow> 16 \<le> q" using assms by linarith
  have hi: "p = 4 \<Longrightarrow> q < 16" using assms by linarith
  have c1: "in_range (if unat b0 = 0xF0 then 0x90 else 0x80) (if unat b0 = 0xF4 then 0x8F else 0xBF) b1"
    using assms(1,2,5) lo hi by (auto simp: in_range_def)
  have c2: "in_range 0x80 0xBF b2" "in_range 0x80 0xBF b3"
    using assms(3,4,6,7) by (simp_all add: in_range_def)
  have n0: "\<not> unat b0 < 0x80" "\<not> unat b0 < 0xC2" "\<not> unat b0 < 0xE0" "\<not> unat b0 < 0xF0" "unat b0 < 0xF5"
    using assms(1) p by simp_all
  have "unat b0 * 262144 + unat b1 * 4096 + unat b2 * 64 + unat b3
      - (0xF0 * 262144 + 0x80 * 4096 + 0x80 * 64 + 0x80) = c"
    using assms(1-4,8) by simp
  with n0 c1 c2 show ?thesis by (simp add: utf8_seq_def Let_def)
qed

text \<open>The encoding of a scalar value is one sequence that the decoder reads back.\<close>

lemma utf8_seq_encode_cp:
  assumes "utf8_scalar c"
  shows "utf8_seq (hd (utf8_encode_cp c)) (tl (utf8_encode_cp c) @ rest) = Some (c, length (utf8_encode_cp c) - 1)"
proof -
  consider "c < 0x80" | "0x80 \<le> c" "c < 0x800" | "0x800 \<le> c" "c < 0x10000"
    | "0x10000 \<le> c" "c < 0x110000"
    using assms unfolding utf8_scalar_def
    by (cases "c < 0x80"; cases "c < 0x800"; cases "c < 0x10000") auto
  then show ?thesis
  proof cases
    case 1
    then show ?thesis by (simp add: utf8_encode_cp_def utf8_seq_1)
  next
    case 2
    have d: "c div 64 < 32" using 2 by linarith
    have e: "utf8_encode_cp c = [of_nat (0xC0 + c div 64), of_nat (0x80 + c mod 64)]"
      using 2 by (simp add: utf8_encode_cp_def)
    have "utf8_seq (of_nat (0xC0 + c div 64)) (of_nat (0x80 + c mod 64) # rest) = Some (c, 1)"
    proof (rule utf8_seq_2 [OF _ _ _ digits2])
      show "unat (of_nat (0xC0 + c div 64) :: byte) = 0xC0 + c div 64"
        using d by (intro unat_of_nat_byte) simp
      show "unat (of_nat (0x80 + c mod 64) :: byte) = 0x80 + c mod 64"
        by (intro unat_of_nat_byte) simp
    qed (use 2 in simp_all)
    then show ?thesis unfolding e by simp
  next
    case 3
    have d: "c div 4096 < 16" using 3 by linarith
    have e: "utf8_encode_cp c =
        [of_nat (0xE0 + c div 4096), of_nat (0x80 + c div 64 mod 64), of_nat (0x80 + c mod 64)]"
      using 3 by (simp add: utf8_encode_cp_def)
    have "utf8_seq (of_nat (0xE0 + c div 4096))
        (of_nat (0x80 + c div 64 mod 64) # of_nat (0x80 + c mod 64) # rest) = Some (c, 2)"
    proof (rule utf8_seq_3 [OF _ _ _ _ _ digits3])
      show "unat (of_nat (0xE0 + c div 4096) :: byte) = 0xE0 + c div 4096"
        using d by (intro unat_of_nat_byte) simp
      show "unat (of_nat (0x80 + c div 64 mod 64) :: byte) = 0x80 + c div 64 mod 64"
        by (intro unat_of_nat_byte) simp
      show "unat (of_nat (0x80 + c mod 64) :: byte) = 0x80 + c mod 64"
        by (intro unat_of_nat_byte) simp
    qed (use 3 assms in \<open>simp_all add: utf8_scalar_def\<close>)
    then show ?thesis unfolding e by simp
  next
    case 4
    have d: "c div 262144 < 5" using 4 by linarith
    have e: "utf8_encode_cp c =
        [of_nat (0xF0 + c div 262144), of_nat (0x80 + c div 4096 mod 64),
         of_nat (0x80 + c div 64 mod 64), of_nat (0x80 + c mod 64)]"
      using 4 by (simp add: utf8_encode_cp_def)
    have "utf8_seq (of_nat (0xF0 + c div 262144))
        (of_nat (0x80 + c div 4096 mod 64) # of_nat (0x80 + c div 64 mod 64) #
         of_nat (0x80 + c mod 64) # rest) = Some (c, 3)"
    proof (rule utf8_seq_4 [OF _ _ _ _ _ _ _ digits4])
      show "unat (of_nat (0xF0 + c div 262144) :: byte) = 0xF0 + c div 262144"
        using d by (intro unat_of_nat_byte) simp
      show "unat (of_nat (0x80 + c div 4096 mod 64) :: byte) = 0x80 + c div 4096 mod 64"
        by (intro unat_of_nat_byte) simp
      show "unat (of_nat (0x80 + c div 64 mod 64) :: byte) = 0x80 + c div 64 mod 64"
        by (intro unat_of_nat_byte) simp
      show "unat (of_nat (0x80 + c mod 64) :: byte) = 0x80 + c mod 64"
        by (intro unat_of_nat_byte) simp
    qed (use 4 in simp_all)
    then show ?thesis unfolding e by simp
  qed
qed

lemma utf8_encode_cp_not_Nil: "utf8_encode_cp c \<noteq> []"
  by (simp add: utf8_encode_cp_def)

lemma utf8_decode_at_encode:
  "\<forall>c \<in> set cs. utf8_scalar c \<Longrightarrow> utf8_decode_at i (utf8_encode cs) = Inr cs"
proof (induction cs arbitrary: i)
  case Nil
  then show ?case by (simp add: utf8_encode_def)
next
  case (Cons c cs)
  obtain b0 bs where e: "utf8_encode_cp c = b0 # bs"
    using utf8_encode_cp_not_Nil by (cases "utf8_encode_cp c") auto
  have "utf8_seq b0 (bs @ utf8_encode cs) = Some (c, length bs)"
    using utf8_seq_encode_cp [of c "utf8_encode cs"] Cons.prems e by simp
  with Cons show ?case by (simp add: utf8_encode_def e)
qed

section \<open>Encoding inverts decoding\<close>

lemma digits_of_2: "r < 64 \<Longrightarrow> (64 * p + r) div 64 = (p::nat) \<and> (64 * p + r) mod 64 = r"
  by simp

lemma digits_of_3:
  "q < 64 \<Longrightarrow> r < 64 \<Longrightarrow>
   (4096 * p + 64 * q + r) div 4096 = (p::nat) \<and> (4096 * p + 64 * q + r) div 64 mod 64 = q \<and>
   (4096 * p + 64 * q + r) mod 64 = r"
proof -
  assume a: "q < 64" "r < 64"
  have e: "4096 * p + 64 * q + r = 64 * (64 * p + q) + r" by simp
  have "(64 * (64 * p + q) + r) div 64 = 64 * p + q" using a by simp
  moreover have "(64 * (64 * p + q) + r) div 4096 = (64 * (64 * p + q) + r) div 64 div 64"
    by (simp add: div_mult2_eq [symmetric])
  moreover have "(r + 64 * (64 * p + q)) mod 64 = r"
    using a by (simp only: mod_mult_self2 mod_less)
  ultimately show ?thesis using a unfolding e by (simp add: add.commute)
qed

lemma digits_of_4:
  "q < 64 \<Longrightarrow> r < 64 \<Longrightarrow> s < 64 \<Longrightarrow>
   (262144 * p + 4096 * q + 64 * r + s) div 262144 = (p::nat) \<and>
   (262144 * p + 4096 * q + 64 * r + s) div 4096 mod 64 = q \<and>
   (262144 * p + 4096 * q + 64 * r + s) div 64 mod 64 = r \<and>
   (262144 * p + 4096 * q + 64 * r + s) mod 64 = s"
proof -
  assume a: "q < 64" "r < 64" "s < 64"
  have e: "262144 * p + 4096 * q + 64 * r + s = 64 * (4096 * p + 64 * q + r) + s" by simp
  have d64: "(64 * (4096 * p + 64 * q + r) + s) div 64 = 4096 * p + 64 * q + r" using a by simp
  have "(64 * (4096 * p + 64 * q + r) + s) div 4096 = (64 * (4096 * p + 64 * q + r) + s) div 64 div 64"
    by (simp add: div_mult2_eq [symmetric])
  moreover have "(64 * (4096 * p + 64 * q + r) + s) div 262144 = (64 * (4096 * p + 64 * q + r) + s) div 64 div 4096"
    by (simp add: div_mult2_eq [symmetric])
  moreover have "(s + 64 * (4096 * p + 64 * q + r)) mod 64 = s"
    using a by (simp only: mod_mult_self2 mod_less)
  ultimately show ?thesis using a digits_of_3 [OF a(1,2), of p] unfolding e d64
    by (simp add: div_mult2_eq [symmetric] add.commute)
qed

lemma of_nat_unat_byte [simp]: "of_nat (unat b) = (b :: byte)"
  by simp

lemma utf8_seq_SomeE:
  assumes "utf8_seq b0 bs = Some (c, k)"
  obtains (one) "k = 0" "unat b0 < 0x80" "c = unat b0"
  | (two) b1 rest where "bs = b1 # rest" "k = 1" "0xC2 \<le> unat b0" "unat b0 < 0xE0"
      "in_range 0x80 0xBF b1" "c = unat b0 * 64 + unat b1 - (0xC0 * 64 + 0x80)"
  | (three) b1 b2 rest where "bs = b1 # b2 # rest" "k = 2" "0xE0 \<le> unat b0" "unat b0 < 0xF0"
      "in_range (if unat b0 = 0xE0 then 0xA0 else 0x80) (if unat b0 = 0xED then 0x9F else 0xBF) b1"
      "in_range 0x80 0xBF b2"
      "c = unat b0 * 4096 + unat b1 * 64 + unat b2 - (0xE0 * 4096 + 0x80 * 64 + 0x80)"
  | (four) b1 b2 b3 rest where "bs = b1 # b2 # b3 # rest" "k = 3" "0xF0 \<le> unat b0" "unat b0 < 0xF5"
      "in_range (if unat b0 = 0xF0 then 0x90 else 0x80) (if unat b0 = 0xF4 then 0x8F else 0xBF) b1"
      "in_range 0x80 0xBF b2" "in_range 0x80 0xBF b3"
      "c = unat b0 * 262144 + unat b1 * 4096 + unat b2 * 64 + unat b3
             - (0xF0 * 262144 + 0x80 * 4096 + 0x80 * 64 + 0x80)"
  using assms unfolding utf8_seq_def Let_def
  by (auto split: if_splits list.splits)

text \<open>Each accepted sequence is the encoding of the scalar value it decodes to.\<close>

lemma utf8_seq_Some_encode:
  assumes "utf8_seq b0 bs = Some (c, k)"
  shows "k \<le> length bs \<and> utf8_scalar c \<and> utf8_encode_cp c = b0 # take k bs"
  using assms
proof (cases rule: utf8_seq_SomeE)
  case one
  then show ?thesis by (simp add: utf8_scalar_def utf8_encode_cp_def)
next
  case (two b1 rest)
  define p where "p = unat b0 - 0xC0"
  define r where "r = unat b1 - 0x80"
  have b: "unat b0 = 0xC0 + p" "unat b1 = 0x80 + r" "r < 64" "2 \<le> p" "p < 32"
    using two by (auto simp: p_def r_def in_range_def)
  have c: "c = 64 * p + r" using two b by simp
  have "utf8_encode_cp c = [of_nat (unat b0), of_nat (unat b1)]"
    using b unfolding c utf8_encode_cp_def by (simp add: digits_of_2 del: of_nat_add)
  then have "utf8_encode_cp c = [b0, b1]" by (simp only: of_nat_unat_byte)
  moreover have "utf8_scalar c" using b unfolding c utf8_scalar_def by linarith
  ultimately show ?thesis using two by simp
next
  case (three b1 b2 rest)
  define p where "p = unat b0 - 0xE0"
  define q where "q = unat b1 - 0x80"
  define r where "r = unat b2 - 0x80"
  have b: "unat b0 = 0xE0 + p" "unat b1 = 0x80 + q" "unat b2 = 0x80 + r" "q < 64" "r < 64" "p < 16"
    using three by (auto simp: p_def q_def r_def in_range_def split: if_splits)
  have lo: "p = 0 \<Longrightarrow> 32 \<le> q" and hi: "p = 13 \<Longrightarrow> q < 32"
    using three b by (auto simp: in_range_def)
  have c: "c = 4096 * p + 64 * q + r" using three b by simp
  have range: "0x800 \<le> c" "c < 0x10000"
    using b lo unfolding c by linarith+
  have "\<not> (0xD800 \<le> c \<and> c \<le> 0xDFFF)"
  proof (cases "p = 13")
    case True
    with b hi show ?thesis unfolding c by linarith
  next
    case False
    then consider "p \<le> 12" | "14 \<le> p" by linarith
    then show ?thesis using b unfolding c by cases linarith+
  qed
  note range = range this
  have "utf8_encode_cp c = [of_nat (unat b0), of_nat (unat b1), of_nat (unat b2)]"
    using b range unfolding utf8_encode_cp_def
    by (simp add: c digits_of_3 del: of_nat_add)
  then have "utf8_encode_cp c = [b0, b1, b2]" by (simp only: of_nat_unat_byte)
  with three range show ?thesis by (simp add: utf8_scalar_def)
next
  case (four b1 b2 b3 rest)
  define p where "p = unat b0 - 0xF0"
  define q where "q = unat b1 - 0x80"
  define r where "r = unat b2 - 0x80"
  define s where "s = unat b3 - 0x80"
  have b: "unat b0 = 0xF0 + p" "unat b1 = 0x80 + q" "unat b2 = 0x80 + r" "unat b3 = 0x80 + s"
    "q < 64" "r < 64" "s < 64" "p < 5"
    using four by (auto simp: p_def q_def r_def s_def in_range_def split: if_splits)
  have lo: "p = 0 \<Longrightarrow> 16 \<le> q" and hi: "p = 4 \<Longrightarrow> q < 16"
    using four b by (auto simp: in_range_def)
  have c: "c = 262144 * p + 4096 * q + 64 * r + s" using four b by simp
  have range: "0x10000 \<le> c" "c < 0x110000"
    using b lo hi unfolding c by linarith+
  have "utf8_encode_cp c = [of_nat (unat b0), of_nat (unat b1), of_nat (unat b2), of_nat (unat b3)]"
    using b range unfolding utf8_encode_cp_def
    by (simp add: c digits_of_4 del: of_nat_add)
  then have "utf8_encode_cp c = [b0, b1, b2, b3]" by (simp only: of_nat_unat_byte)
  with four range show ?thesis by (simp add: utf8_scalar_def)
qed

text \<open>A sequence is read from its first bytes only: what follows does not change it.\<close>

lemma utf8_seq_take:
  assumes "utf8_seq b0 bs = Some (c, k)"
  shows "utf8_seq b0 (take k bs @ ys) = Some (c, k)"
proof -
  from assms have e: "utf8_encode_cp c = b0 # take k bs" and k: "k \<le> length bs"
    and sc: "utf8_scalar c"
    using utf8_seq_Some_encode by blast+
  from utf8_seq_encode_cp [OF sc, of ys] show ?thesis
    unfolding e using k by simp
qed

lemma utf8_decode_at_Inr:
  "utf8_decode_at i bs = Inr cs \<Longrightarrow> utf8_encode cs = bs \<and> (\<forall>c \<in> set cs. utf8_scalar c)"
proof (induction i bs arbitrary: cs rule: utf8_decode_at.induct)
  case (1 i)
  then show ?case by (simp add: utf8_encode_def)
next
  case (2 i b0 bs)
  then obtain c k cs' where seq: "utf8_seq b0 bs = Some (c, k)"
    and rec: "utf8_decode_at (i + Suc k) (drop k bs) = Inr cs'" and cs: "cs = c # cs'"
    by (auto simp: ebind_eq_Inr split: option.splits)
  from seq have "k \<le> length bs \<and> utf8_scalar c \<and> utf8_encode_cp c = b0 # take k bs"
    by (rule utf8_seq_Some_encode)
  with "2.IH" [OF seq refl rec] show ?case
    by (simp add: cs utf8_encode_def)
qed

lemma utf8_decode_at_Inl:
  "utf8_decode_at i bs = Inl e \<Longrightarrow>
   \<exists>j cs. e = UnicodeDecodeError (i + j) \<and> j < length bs \<and>
     utf8_decode_at i (take j bs) = Inr cs \<and> utf8_seq (bs ! j) (drop (Suc j) bs) = None"
proof (induction i bs rule: utf8_decode_at.induct)
  case (1 i)
  then show ?case by simp
next
  case (2 i b0 bs)
  show ?case
  proof (cases "utf8_seq b0 bs")
    case None
    with "2.prems" show ?thesis by auto
  next
    case (Some ck)
    then obtain c k where seq: "utf8_seq b0 bs = Some (c, k)" by (cases ck) auto
    with "2.prems" have rec: "utf8_decode_at (i + Suc k) (drop k bs) = Inl e"
      by (auto simp: ebind_eq_Inl)
    from "2.IH" [OF seq refl rec] obtain j cs where
      e: "e = UnicodeDecodeError (i + Suc k + j)" and j: "j < length (drop k bs)"
      and pre: "utf8_decode_at (i + Suc k) (take j (drop k bs)) = Inr cs"
      and bad: "utf8_seq (drop k bs ! j) (drop (Suc j) (drop k bs)) = None"
      by blast
    have k: "k \<le> length bs" using utf8_seq_Some_encode [OF seq] by simp
    have "take (Suc k + j) (b0 # bs) = b0 # (take k bs @ take j (drop k bs))"
      by (simp add: take_add)
    moreover have "utf8_seq b0 (take k bs @ take j (drop k bs)) = Some (c, k)"
      by (rule utf8_seq_take [OF seq])
    ultimately have "utf8_decode_at i (take (Suc k + j) (b0 # bs)) = Inr (c # cs)"
      using k pre by simp
    moreover have "(b0 # bs) ! (Suc k + j) = drop k bs ! j"
      using k j by simp
    moreover have "drop (Suc (Suc k + j)) (b0 # bs) = drop (Suc j) (drop k bs)"
      by (simp add: add.commute)
    ultimately show ?thesis
      using e j k bad by (intro exI [of _ "Suc k + j"]) auto
  qed
qed

section \<open>Properties\<close>

text \<open>C15: decoding the UTF-8 encoding of a sequence of Unicode scalar values gives the
  sequence back.\<close>

theorem py_decode_utf8_roundtrip:
  assumes "\<forall>c \<in> set cs. utf8_scalar c"
  shows "py_decode_utf8 (utf8_encode cs) = Inr cs"
  using utf8_decode_at_encode [OF assms] by (simp add: py_decode_utf8_def)

theorem py_decode_utf8_roundtrip_witness:
  "py_decode_utf8 [0x42, 0xC3, 0xA9, 0xE2, 0x82, 0xAC, 0xF0, 0x9F, 0x98, 0x80] =
     Inr [0x42, 0xE9, 0x20AC, 0x1F600]"
proof -
  have "\<forall>c \<in> set [0x42, 0xE9, 0x20AC, 0x1F600]. utf8_scalar c"
    by (simp add: utf8_scalar_def)
  from py_decode_utf8_roundtrip [OF this] show ?thesis
    by (simp add: utf8_encode_def utf8_encode_cp_def)
qed

text \<open>C16: what the decoder accepts is exactly an encoding: the decoded text consists of
  scalar values and encodes back to the input bytes, so no two byte strings decode to the
  same text.\<close>

theorem py_decode_utf8_canonical:
  assumes "py_decode_utf8 bs = Inr cs"
  shows "utf8_encode cs = bs \<and> (\<forall>c \<in> set cs. utf8_scalar c)"
  using assms unfolding py_decode_utf8_def by (rule utf8_decode_at_Inr)

theorem py_decode_utf8_canonical_witness:
  "utf8_encode [0x42, 0xE9] = [0x42, 0xC3, 0xA9] \<and> utf8_scalar 0xE9"
proof -
  have "py_decode_utf8 [0x42, 0xC3, 0xA9] = Inr [0x42, 0xE9]"
    by (simp add: py_decode_utf8_def utf8_seq_def in_range_def)
  from py_decode_utf8_canonical [OF this] show ?thesis by simp
qed

text \<open>C17: a decoding error names the offset of the first sequence the decoder rejects:
  everything before it decodes, the sequence starting there does not.\<close>

theorem py_decode_utf8_error:
  assumes "py_decode_utf8 bs = Inl e"
  shows "\<exists>j cs. e = UnicodeDecodeError j \<and> j < length bs \<and>
           py_decode_utf8 (take j bs) = Inr cs \<and> utf8_seq (bs ! j) (drop (Suc j) bs) = None"
  using utf8_decode_at_Inl [of 0 bs e] assms by (simp add: py_decode_utf8_def)

theorem py_decode_utf8_error_witness:
  "py_decode_utf8 [0x42, 0xED, 0xA0, 0x80] = Inl (UnicodeDecodeError 1) \<and>
   py_decode_utf8 [0x42] = Inr [0x42] \<and> utf8_seq 0xED [0xA0, 0x80] = None"
proof -
  have e: "py_decode_utf8 [0x42, 0xED, 0xA0, 0x80] = Inl (UnicodeDecodeError 1)"
    by (simp add: py_decode_utf8_def utf8_seq_def in_range_def)
  from py_decode_utf8_error [OF e] obtain j cs where
    j: "UnicodeDecodeError 1 = UnicodeDecodeError j"
    and pre: "py_decode_utf8 (take j [0x42, 0xED, 0xA0, 0x80]) = Inr cs"
    and bad: "utf8_seq ([0x42, 0xED, 0xA0, 0x80] ! j) (drop (Suc j) [0x42, 0xED, 0xA0, 0x80]) = None"
    by blast
  from j have "j = 1" by simp
  with pre bad have "py_decode_utf8 [0x42] = Inr cs" "utf8_seq 0xED [0xA0, 0x80] = None"
    by simp_all
  moreover from this(1) have "cs = [0x42]"
    by (simp add: py_decode_utf8_def utf8_seq_def)
  ultimately show ?thesis using e by simp
qed

end
