(* ===== verification/PyIO.thy ===== *)
theory PyIO
  imports Prelude
begin

text \<open>
  The effects of \<^verbatim>\<open>src/create_report.py\<close>, made explicit. The script runs against a
  world: the files of the working directory and whatever else the external programs see
  (the USB devices; left abstract as the type parameter \<open>'h\<close>). What it does that an
  operator can observe is kept in a log of events: the lines it prints, the commands it
  launches, and the output those commands write to the terminal.

  The external programs (\<^verbatim>\<open>lsusb\<close>, \<^verbatim>\<open>umockdev-record\<close>, \<^verbatim>\<open>umockdev-run\<close>,
  \<^verbatim>\<open>./hidreport\<close>) are not part of the repository. They form the interface \<open>'h env\<close>:
  given a command line and the world, an environment says whether the program could be
  launched and, if so, its exit status, its standard output and the world it leaves. Every
  theorem about the script holds for every environment, or states what it assumes of it.

  Python's statements become computations of type \<open>('a, 'h) pyio\<close>: from a state they
  return a value or the exception that ends the script, and the state reached, so that the
  effects performed before an uncaught exception remain visible.
\<close>

section \<open>World, events and the environment\<close>

record 'h world =
  files :: "pystr \<rightharpoonup> bytes"
  hw :: 'h

datatype 'h proc_result =
    Launch_failed
  | Exited (exit_status: int) (stdout: bytes) (after: "'h world")

type_synonym 'h env = "pystr list \<Rightarrow> 'h world \<Rightarrow> 'h proc_result"

datatype event =
    Print pystr
  | Spawn "pystr list"
  | Child_output bytes

record 'h st =
  world :: "'h world"
  log :: "event list"

type_synonym ('a, 'h) pyio = "'h st \<Rightarrow> (py_error + 'a) \<times> 'h st"

section \<open>Sequencing\<close>

definition ret :: "'a \<Rightarrow> ('a, 'h) pyio" where
  "ret a = (\<lambda>s. (Inr a, s))"

definition liftE :: "py_error + 'a \<Rightarrow> ('a, 'h) pyio" where
  "liftE r = (\<lambda>s. (r, s))"

definition bindE :: "('a, 'h) pyio \<Rightarrow> ('a \<Rightarrow> ('b, 'h) pyio) \<Rightarrow> ('b, 'h) pyio" where
  "bindE m f = (\<lambda>s. case m s of (Inl e, s') \<Rightarrow> (Inl e, s') | (Inr a, s') \<Rightarrow> f a s')"

definition thenE :: "('a, 'h) pyio \<Rightarrow> ('b, 'h) pyio \<Rightarrow> ('b, 'h) pyio" where
  "thenE m k = bindE m (\<lambda>_. k)"

section \<open>Primitives\<close>

text \<open>\<open>print(s)\<close>: the text and the line end \<open>print\<close> adds.\<close>

definition py_print :: "pystr \<Rightarrow> (unit, 'h) pyio" where
  "py_print s = (\<lambda>st. (Inr (), st\<lparr>log := log st @ [Print (s @ [10])]\<rparr>))"

text \<open>
  \<open>subprocess.Popen(cmd, stdout=subprocess.PIPE).communicate()[0]\<close>: launch the program
  named by \<open>cmd[0]\<close>, wait for it, and return what it wrote to standard output. A program
  that cannot be launched raises \<open>FileNotFoundError\<close> from \<open>Popen\<close>; the exit status is
  dropped. Every command line the script builds starts with a program name.
\<close>

definition popen_communicate :: "'h env \<Rightarrow> pystr list \<Rightarrow> (bytes, 'h) pyio" where
  "popen_communicate env cmd =
     (\<lambda>st. case env cmd (world st) of
        Launch_failed \<Rightarrow> (Inl (FileNotFoundError (hd cmd)), st)
      | Exited code out w' \<Rightarrow> (Inr out, st\<lparr>world := w', log := log st @ [Spawn cmd]\<rparr>))"

text \<open>\<open>subprocess.call(cmd)\<close>: launch, wait, return the exit status; the program writes to
  the script's own standard output.\<close>

definition subprocess_call :: "'h env \<Rightarrow> pystr list \<Rightarrow> (int, 'h) pyio" where
  "subprocess_call env cmd =
     (\<lambda>st. case env cmd (world st) of
        Launch_failed \<Rightarrow> (Inl (FileNotFoundError (hd cmd)), st)
      | Exited code out w' \<Rightarrow>
          (Inr code, st\<lparr>world := w', log := log st @ [Spawn cmd, Child_output out]\<rparr>))"

text \<open>\<open>open(name, 'wb')\<close> creates the file or truncates it; \<open>write(data)\<close> on that handle
  appends at the current end. The \<open>with\<close> block closes the file.\<close>

definition py_open_wb :: "pystr \<Rightarrow> (unit, 'h) pyio" where
  "py_open_wb name =
     (\<lambda>st. (Inr (), st\<lparr>world := world st\<lparr>files := (files (world st))(name \<mapsto> [])\<rparr>\<rparr>))"

definition py_file_write :: "pystr \<Rightarrow> bytes \<Rightarrow> (nat, 'h) pyio" where
  "py_file_write name bs =
     (\<lambda>st. (Inr (length bs),
            st\<lparr>world := world st\<lparr>files := (files (world st))
                 (name \<mapsto> (case files (world st) name of None \<Rightarrow> [] | Some old \<Rightarrow> old) @ bs)\<rparr>\<rparr>))"

section \<open>The log\<close>

text \<open>The commands launched, in order, read off the log.\<close>

fun spawned :: "event list \<Rightarrow> pystr list list" where
  "spawned [] = []"
| "spawned (Spawn c # es) = c # spawned es"
| "spawned (_ # es) = spawned es"

section \<open>Assumptions about the environment\<close>

text \<open>Every program can be launched (each external command is installed).\<close>

definition launches :: "'h env \<Rightarrow> bool" where
  "launches env \<longleftrightarrow> (\<forall>c w. env c w \<noteq> Launch_failed)"

text \<open>Running \<open>c\<close> leaves file \<open>f\<close> as it was.\<close>

definition keeps_file :: "'h env \<Rightarrow> pystr list \<Rightarrow> pystr \<Rightarrow> bool" where
  "keeps_file env c f \<longleftrightarrow>
     (\<forall>w. case env c w of Launch_failed \<Rightarrow> True | Exited x o' w' \<Rightarrow> files w' f = files w f)"

text \<open>The environment with every exit status replaced by 0.\<close>

definition forget_status :: "'h proc_result \<Rightarrow> 'h proc_result" where
  "forget_status r = (case r of Launch_failed \<Rightarrow> Launch_failed | Exited x o' w \<Rightarrow> Exited 0 o' w)"

section \<open>Laws\<close>

lemma bindE_ret [io_simps]: "bindE (ret a) f = f a"
  by (simp add: bindE_def ret_def)

lemma bindE_liftE [io_simps]:
  "bindE (liftE (Inr a)) f = f a" "bindE (liftE (Inl e)) f = (\<lambda>s. (Inl e, s))"
  by (simp_all add: bindE_def liftE_def)

lemma bindE_assoc: "bindE (bindE m f) g = bindE m (\<lambda>a. bindE (f a) g)"
  by (rule ext) (simp add: bindE_def split: prod.splits sum.splits)

lemma bindE_apply [io_simps]:
  "m s = (Inr a, s') \<Longrightarrow> bindE m f s = f a s'"
  "m s = (Inl e, s') \<Longrightarrow> bindE m f s = (Inl e, s')"
  by (simp_all add: bindE_def)

lemma thenE_apply [io_simps]:
  "m s = (Inr a, s') \<Longrightarrow> thenE m k s = k s'"
  "m s = (Inl e, s') \<Longrightarrow> thenE m k s = (Inl e, s')"
  by (simp_all add: thenE_def bindE_def)

lemma py_print_run [io_simps]:
  "py_print t st = (Inr (), st\<lparr>log := log st @ [Print (t @ [10])]\<rparr>)"
  by (simp add: py_print_def)

lemma popen_communicate_run [io_simps]:
  "env cmd (world st) = Exited code out w' \<Longrightarrow>
     popen_communicate env cmd st = (Inr out, st\<lparr>world := w', log := log st @ [Spawn cmd]\<rparr>)"
  "env cmd (world st) = Launch_failed \<Longrightarrow>
     popen_communicate env cmd st = (Inl (FileNotFoundError (hd cmd)), st)"
  by (simp_all add: popen_communicate_def)

lemma subprocess_call_run [io_simps]:
  "env cmd (world st) = Exited code out w' \<Longrightarrow>
     subprocess_call env cmd st =
       (Inr code, st\<lparr>world := w', log := log st @ [Spawn cmd, Child_output out]\<rparr>)"
  "env cmd (world st) = Launch_failed \<Longrightarrow>
     subprocess_call env cmd st = (Inl (FileNotFoundError (hd cmd)), st)"
  by (simp_all add: subprocess_call_def)

lemma py_open_wb_run [io_simps]:
  "py_open_wb name st = (Inr (), st\<lparr>world := world st\<lparr>files := (files (world st))(name \<mapsto> [])\<rparr>\<rparr>)"
  by (simp add: py_open_wb_def)

lemma py_file_write_run [io_simps]:
  "files (world st) name = Some old \<Longrightarrow>
     py_file_write name bs st =
       (Inr (length bs), st\<lparr>world := world st\<lparr>files := (files (world st))(name \<mapsto> old @ bs)\<rparr>\<rparr>)"
  by (simp add: py_file_write_def)

lemma liftE_run [io_simps]: "liftE r st = (r, st)"
  by (simp add: liftE_def)

lemma ret_run [io_simps]: "ret a st = (Inr a, st)"
  by (simp add: ret_def)

text \<open>Opening for writing and then writing leaves exactly the written bytes, whatever the file
  held before: the truncation of mode \<open>'wb'\<close>.\<close>

lemma open_wb_write:
  "thenE (py_open_wb name) (py_file_write name bs) st =
     (Inr (length bs), st\<lparr>world := world st\<lparr>files := (files (world st))(name \<mapsto> bs)\<rparr>\<rparr>)"
  by (simp add: thenE_def bindE_def py_open_wb_def py_file_write_def)

section \<open>Lemmas: The log\<close>

lemma spawned_append [simp]: "spawned (xs @ ys) = spawned xs @ spawned ys"
  by (induction xs rule: spawned.induct) auto

section \<open>Lemmas: Assumptions about the environment\<close>

lemma launchesD: "launches env \<Longrightarrow> \<exists>x o' w'. env c w = Exited x o' w'"
  unfolding launches_def by (cases "env c w") auto

lemma keeps_fileD: "keeps_file env c f \<Longrightarrow> env c w = Exited x o' w' \<Longrightarrow> files w' f = files w f"
  unfolding keeps_file_def by (erule allE [where x = w]) simp

end
