(* ===== verification/Enumerator.thy ===== *)
theory Enumerator
  imports PyStr Utf8 PyIO
begin

text \<open>
  The device enumerator, lines 4--15 of \<^verbatim>\<open>src/create_report.py\<close>: run
  \<^verbatim>\<open>lsusb -d 413c:\<close>, decode its output as UTF-8, and, for every line that is not blank,
  append the second whitespace-separated field to \<open>bus\<close>, the fourth with its colons
  stripped to \<open>device\<close>, and the part of the sixth after its first colon (up to the next
  one) to \<open>pid\<close>. The three lists are the loop's state (\<open>enum_st\<close>). The lemmas give the
  exact result of the parser on any text (claim C2, in terms of the column rule
  \<open>line_fields\<close> of the specification), the invariant that the three lists stay
  parallel, the error raised by a malformed line, and the round trip from a listing
  printed in \<^verbatim>\<open>lsusb\<close>'s format (\<open>lsusb_output\<close>, modelled from the specification's
  example line, since \<^verbatim>\<open>lsusb\<close> is not part of the repository) back to the devices'
  fields (claim C14).
\<close>

section \<open>The model\<close>

definition lsusb_cmd :: "pystr list" where
  "lsusb_cmd = map pystr_of [''lsusb'', ''-d'', ''413c:'']"

record enum_st =
  bus :: "pystr list"
  device :: "pystr list"
  pid :: "pystr list"

definition enum_init :: enum_st where
  "enum_init = \<lparr>bus = [], device = [], pid = []\<rparr>"

text \<open>The loop body: \<open>continue\<close> on a blank line, else the three appends in source order,
  each of which may raise \<open>IndexError\<close>.\<close>

definition enum_body :: "pystr \<Rightarrow> enum_st \<Rightarrow> py_error + enum_st" where
  "enum_body line st =
     (if py_strip line = [] then Inr st
      else
        ebind (py_index (py_split_ws line) 1) (\<lambda>b.
        let st1 = st\<lparr>bus := bus st @ [b]\<rparr> in
        ebind (py_index (py_split_ws line) 3) (\<lambda>d.
        let st2 = st1\<lparr>device := device st1 @ [py_strip_chars [58] d]\<rparr> in
        ebind (py_index (py_split_ws line) 5) (\<lambda>f.
        ebind (py_index (py_split_char 58 f) 1) (\<lambda>p.
        Inr (st2\<lparr>pid := pid st2 @ [p]\<rparr>))))))"

fun enum_lines :: "pystr list \<Rightarrow> enum_st \<Rightarrow> py_error + enum_st" where
  "enum_lines [] st = Inr st"
| "enum_lines (l # ls) st = ebind (enum_body l st) (enum_lines ls)"

definition parse_lsusb :: "pystr \<Rightarrow> py_error + enum_st" where
  "parse_lsusb out = enum_lines (py_split_char 10 out) enum_init"

definition list_devices :: "'h env \<Rightarrow> (enum_st, 'h) pyio" where
  "list_devices env =
     bindE (popen_communicate env lsusb_cmd) (\<lambda>raw.
     bindE (liftE (py_decode_utf8 raw)) (\<lambda>out.
     liftE (parse_lsusb out)))"

section \<open>The column rule of the specification\<close>

text \<open>A listing line is well formed when it has at least six fields and the sixth contains a
  colon; its handle is then (field 2, field 4 without colons at either end, the piece of
  field 6 after the first colon).\<close>

type_synonym handle = "pystr \<times> pystr \<times> pystr"

definition is_blank :: "pystr \<Rightarrow> bool" where
  "is_blank l \<longleftrightarrow> (\<forall>c \<in> set l. py_isspace c)"

definition well_formed_line :: "pystr \<Rightarrow> bool" where
  "well_formed_line l \<longleftrightarrow> 6 \<le> length (py_split_ws l) \<and> 58 \<in> set (py_split_ws l ! 5)"

definition line_fields :: "pystr \<Rightarrow> handle" where
  "line_fields l =
     (py_split_ws l ! 1, py_strip_chars [58] (py_split_ws l ! 3), py_split_char 58 (py_split_ws l ! 5) ! 1)"

definition handles :: "enum_st \<Rightarrow> handle list" where
  "handles st = zip (bus st) (zip (device st) (pid st))"

definition enum_of :: "handle list \<Rightarrow> enum_st" where
  "enum_of hs = \<lparr>bus = map fst hs, device = map (fst \<circ> snd) hs, pid = map (snd \<circ> snd) hs\<rparr>"

definition add_handle :: "enum_st \<Rightarrow> handle \<Rightarrow> enum_st" where
  "add_handle st h =
     st\<lparr>bus := bus st @ [fst h], device := device st @ [fst (snd h)], pid := pid st @ [snd (snd h)]\<rparr>"

definition parallel :: "enum_st \<Rightarrow> bool" where
  "parallel st \<longleftrightarrow> length (bus st) = length (device st) \<and> length (device st) = length (pid st)"

section \<open>The loop\<close>

definition line_ok :: "pystr \<Rightarrow> bool" where
  "line_ok l \<longleftrightarrow> is_blank l \<or> well_formed_line l"

section \<open>The listing format of lsusb\<close>

text \<open>
  The line \<^verbatim>\<open>lsusb\<close> prints for a device, \<open>Bus BBB Device DDD: ID VVVV:PPPP description\<close>,
  with single spaces between words and a newline after each line. \<open>entry_ok\<close> names what
  the column rule relies on: a non-empty bus and words without whitespace, and no colon
  in the device number, vendor id or product id.
\<close>

record lsusb_entry =
  usb_bus :: pystr
  usb_dev :: pystr
  usb_vid :: pystr
  usb_pid :: pystr
  usb_desc :: "pystr list"

definition lsusb_words :: "lsusb_entry \<Rightarrow> pystr list" where
  "lsusb_words e =
     [pystr_of ''Bus'', usb_bus e, pystr_of ''Device'', usb_dev e @ [58],
      pystr_of ''ID'', usb_vid e @ [58] @ usb_pid e] @ usb_desc e"

definition lsusb_line :: "lsusb_entry \<Rightarrow> pystr" where
  "lsusb_line e = py_join [32] (lsusb_words e)"

definition lsusb_output :: "lsusb_entry list \<Rightarrow> pystr" where
  "lsusb_output es = concat (map (\<lambda>e. lsusb_line e @ [10]) es)"

definition entry_ok :: "lsusb_entry \<Rightarrow> bool" where
  "entry_ok e \<longleftrightarrow>
     usb_bus e \<noteq> [] \<and> (\<forall>c \<in> set (usb_bus e). \<not> py_isspace c) \<and>
     (\<forall>c \<in> set (usb_dev e @ usb_vid e @ usb_pid e). \<not> py_isspace c \<and> c \<noteq> 58) \<and>
     (\<forall>w \<in> set (usb_desc e). w \<noteq> [] \<and> (\<forall>c \<in> set w. \<not> py_isspace c))"

section \<open>The loop body\<close>

lemma py_strip_Nil_iff: "py_strip l = [] \<longleftrightarrow> is_blank l"
  by (simp add: py_strip_def is_blank_def py_strip_by_Nil_iff)

lemma enum_body_blank: "is_blank l \<Longrightarrow> enum_body l st = Inr st"
  by (simp add: enum_body_def py_strip_Nil_iff)

lemma colon_in_iff_pieces: "58 \<in> set f \<longleftrightarrow> 1 < length (py_split_char 58 f)"
  unfolding length_py_split_char using count_list_0_iff [of f 58] by auto

lemma enum_body_well_formed:
  "\<not> is_blank l \<Longrightarrow> well_formed_line l \<Longrightarrow> enum_body l st = Inr (add_handle st (line_fields l))"
  by (simp add: enum_body_def py_strip_Nil_iff well_formed_line_def colon_in_iff_pieces
      py_index_def Let_def add_handle_def line_fields_def)

lemma enum_body_malformed:
  "\<not> is_blank l \<Longrightarrow> \<not> well_formed_line l \<Longrightarrow> enum_body l st = Inl IndexError"
  by (auto simp: enum_body_def py_strip_Nil_iff well_formed_line_def colon_in_iff_pieces
      py_index_def Let_def)

lemmas enum_body_cases = enum_body_blank enum_body_well_formed enum_body_malformed

section \<open>Lemmas: The loop\<close>

lemma enum_lines_eq:
  "enum_lines ls st =
     (if \<forall>l \<in> set ls. line_ok l
      then Inr (foldl add_handle st (map line_fields (filter (\<lambda>l. \<not> is_blank l) ls)))
      else Inl IndexError)"
proof (induction ls arbitrary: st)
  case Nil
  then show ?case by simp
next
  case (Cons l ls)
  consider "is_blank l" | "\<not> is_blank l" "well_formed_line l" | "\<not> is_blank l" "\<not> well_formed_line l"
    by blast
  then show ?case
    by cases (simp_all add: enum_body_cases Cons.IH line_ok_def)
qed

lemma add_handle_enum_of: "add_handle (enum_of hs) h = enum_of (hs @ [h])"
  by (simp add: add_handle_def enum_of_def)

lemma foldl_add_handle_enum_of: "foldl add_handle (enum_of hs) hs' = enum_of (hs @ hs')"
  by (induction hs' arbitrary: hs) (simp_all add: add_handle_enum_of)

lemma enum_init_enum_of: "enum_init = enum_of []"
  by (simp add: enum_init_def enum_of_def)

lemma handles_enum_of: "handles (enum_of hs) = hs"
proof (induction hs)
  case (Cons h hs)
  then show ?case by (cases h) (simp add: handles_def enum_of_def)
qed (simp add: handles_def enum_of_def)

lemma parallel_enum_of: "parallel (enum_of hs)"
  by (simp add: parallel_def enum_of_def)

lemma parse_lsusb_spec:
  "parse_lsusb out =
     (if \<forall>l \<in> set (py_split_char 10 out). line_ok l
      then Inr (enum_of (map line_fields (filter (\<lambda>l. \<not> is_blank l) (py_split_char 10 out))))
      else Inl IndexError)"
  by (simp add: parse_lsusb_def enum_lines_eq enum_init_enum_of foldl_add_handle_enum_of)

lemma parse_lsusb_Inr:
  "parse_lsusb out = Inr st \<Longrightarrow>
   st = enum_of (map line_fields (filter (\<lambda>l. \<not> is_blank l) (py_split_char 10 out)))"
  by (simp add: parse_lsusb_spec split: if_splits)

lemma parse_lsusb_Inl: "parse_lsusb out = Inl e \<Longrightarrow> e = IndexError"
  by (simp add: parse_lsusb_spec split: if_splits)

lemma enum_body_parallel: "parallel st \<Longrightarrow> enum_body l st = Inr st' \<Longrightarrow> parallel st'"
  by (cases "is_blank l"; cases "well_formed_line l")
    (auto simp: enum_body_cases add_handle_def parallel_def)

lemma list_devices_run:
  "env lsusb_cmd (world s) = Exited x raw w \<Longrightarrow>
     list_devices env s = (ebind (py_decode_utf8 raw) parse_lsusb, s\<lparr>world := w, log := log s @ [Spawn lsusb_cmd]\<rparr>)"
  "env lsusb_cmd (world s) = Launch_failed \<Longrightarrow>
     list_devices env s = (Inl (FileNotFoundError (pystr_of ''lsusb'')), s)"
  by (simp_all add: list_devices_def bindE_def liftE_def popen_communicate_def lsusb_cmd_def ebind_def
      split: sum.split)

lemma list_devices_forget_status:
  "list_devices (\<lambda>c w. forget_status (env c w)) = list_devices env"
  by (rule ext) (simp add: list_devices_def bindE_def popen_communicate_def forget_status_def
      split: proc_result.split)

lemma list_devices_parallel: "list_devices env s = (Inr es, s') \<Longrightarrow> parallel es"
  by (auto simp: list_devices_def bindE_def liftE_def popen_communicate_def parallel_enum_of
      dest!: parse_lsusb_Inr split: proc_result.splits sum.splits)

section \<open>Lemmas: The listing format of lsusb\<close>

lemma lsusb_words_ok:
  "entry_ok e \<Longrightarrow> \<forall>w \<in> set (lsusb_words e). w \<noteq> [] \<and> (\<forall>c \<in> set w. \<not> py_isspace c)"
  by (auto simp: lsusb_words_def entry_ok_def py_isspace_def)

lemma lsusb_line_words: "entry_ok e \<Longrightarrow> py_split_ws (lsusb_line e) = lsusb_words e"
  unfolding lsusb_line_def by (intro py_split_ws_join_aux lsusb_words_ok)

lemma lsusb_line_ok:
  assumes "entry_ok e"
  shows "\<not> is_blank (lsusb_line e)" and "well_formed_line (lsusb_line e)"
    and "line_fields (lsusb_line e) = (usb_bus e, usb_dev e, usb_pid e)"
    and "10 \<notin> set (lsusb_line e)"
proof -
  note words = lsusb_line_words [OF assms, unfolded lsusb_words_def]
  have "py_split_ws (lsusb_line e) \<noteq> []" by (simp add: words)
  then show "\<not> is_blank (lsusb_line e)" by (simp add: is_blank_def py_split_ws_Nil_iff)
  show "well_formed_line (lsusb_line e)" by (simp add: well_formed_line_def words nth_append)
  have dev: "py_strip_chars [58] (usb_dev e @ [58]) = usb_dev e"
    unfolding py_strip_chars_def by (rule py_strip_by_suffix) (use assms in \<open>auto simp: entry_ok_def\<close>)
  have "58 \<notin> set (usb_vid e)" and "58 \<notin> set (usb_pid e)"
    using assms by (auto simp: entry_ok_def)
  then have "py_split_char 58 (usb_vid e @ [58] @ usb_pid e) = [usb_vid e, usb_pid e]"
    by (simp add: py_split_char_sep_append py_split_char_no_sep)
  with dev show "line_fields (lsusb_line e) = (usb_bus e, usb_dev e, usb_pid e)"
    by (simp add: line_fields_def words nth_append)
  show "10 \<notin> set (lsusb_line e)"
  proof
    assume "10 \<in> set (lsusb_line e)"
    then have "10 \<in> set [32::nat] \<or> (\<exists>t \<in> set (lsusb_words e). 10 \<in> set t)"
      unfolding lsusb_line_def by (rule set_py_join)
    then show False
      using lsusb_words_ok [OF assms] py_isspace_ascii(3) by fastforce
  qed
qed

section \<open>Properties\<close>

text \<open>C2: the enumerator's result on any \<^verbatim>\<open>lsusb\<close> output: when every line is blank or
  well formed, the handles of the non-blank lines in listing order, each by the column rule
  (bus = field 2, device = field 4 without colons, product id = field 6 after the colon);
  otherwise \<open>IndexError\<close>.\<close>

theorem parse_lsusb_eq:
  "parse_lsusb out =
     (if \<forall>l \<in> set (py_split_char 10 out). is_blank l \<or> well_formed_line l
      then Inr (enum_of (map line_fields (filter (\<lambda>l. \<not> is_blank l) (py_split_char 10 out))))
      else Inl IndexError)"
  using parse_lsusb_spec [of out] by (simp add: line_ok_def)

theorem parse_lsusb_eq_witness:
  "parse_lsusb (pystr_of ''Bus 001 Device 002: ID 413c:2113 Dell KB216'' @ [10] @ pystr_of ''  '') =
     Inr (enum_of [(pystr_of ''001'', pystr_of ''002'', pystr_of ''2113'')])"
  unfolding parse_lsusb_eq
  by (simp add: py_split_char_def is_blank_def well_formed_line_def line_fields_def
      py_split_ws.simps py_isspace_def py_strip_chars_def py_strip_by_def)

text \<open>C7: the three lists of the enumerator stay parallel: every step of the loop appends to
  all three or to none, so the driver's \<open>bus[i]\<close>, \<open>device[i]\<close>, \<open>pid[i]\<close> describe
  one device.\<close>

theorem enum_lines_parallel:
  assumes "parallel st" and "enum_lines ls st = Inr st'"
  shows "parallel st'"
  using assms
proof (induction ls arbitrary: st)
  case Nil
  then show ?case by simp
next
  case (Cons l ls)
  then obtain st1 where "enum_body l st = Inr st1" and "enum_lines ls st1 = Inr st'"
    by (auto simp: ebind_eq_Inr)
  with Cons show ?case by (blast intro: enum_body_parallel)
qed

theorem enum_lines_parallel_witness:
  "parallel (enum_of [(pystr_of ''002'', pystr_of ''004'', pystr_of ''301a'')])"
proof -
  have "enum_lines [pystr_of ''Bus 002 Device 004: ID 413c:301a''] enum_init =
          Inr (enum_of [(pystr_of ''002'', pystr_of ''004'', pystr_of ''301a'')])"
    by (simp add: enum_lines_eq line_ok_def is_blank_def well_formed_line_def line_fields_def
        enum_init_enum_of foldl_add_handle_enum_of add_handle_enum_of py_split_char_def
        py_split_ws.simps py_isspace_def py_strip_chars_def py_strip_by_def)
  moreover have "parallel enum_init" by (simp add: enum_init_def parallel_def)
  ultimately show ?thesis using enum_lines_parallel by blast
qed

text \<open>C8: a non-blank line with fewer than six fields, or whose sixth field has no colon,
  makes the enumerator raise \<open>IndexError\<close>.\<close>

theorem parse_lsusb_malformed:
  assumes "l \<in> set (py_split_char 10 out)" and "\<not> is_blank l" and "\<not> well_formed_line l"
  shows "parse_lsusb out = Inl IndexError"
  using assms by (auto simp: parse_lsusb_spec line_ok_def)

theorem parse_lsusb_malformed_witness:
  "parse_lsusb (pystr_of ''Bus 002 Device 004: ID'') = Inl IndexError"
proof (rule parse_lsusb_malformed)
  show "pystr_of ''Bus 002 Device 004: ID'' \<in> set (py_split_char 10 (pystr_of ''Bus 002 Device 004: ID''))"
    by (simp add: py_split_char_def)
  show "\<not> is_blank (pystr_of ''Bus 002 Device 004: ID'')"
    by (simp add: is_blank_def py_isspace_def)
  show "\<not> well_formed_line (pystr_of ''Bus 002 Device 004: ID'')"
    by (simp add: well_formed_line_def py_split_ws.simps py_isspace_def)
qed

text \<open>C12: as many handles as non-blank lines, in three lists of that length.\<close>

theorem parse_lsusb_count:
  assumes "parse_lsusb out = Inr st"
  shows "length (bus st) = length (filter (\<lambda>l. \<not> is_blank l) (py_split_char 10 out)) \<and>
         length (device st) = length (bus st) \<and> length (pid st) = length (bus st)"
  using parse_lsusb_Inr [OF assms] by (simp add: enum_of_def)

theorem parse_lsusb_count_witness:
  "length (bus (enum_of [(pystr_of ''001'', pystr_of ''002'', pystr_of ''2113'')])) = 1"
proof -
  let ?out = "pystr_of ''Bus 001 Device 002: ID 413c:2113'' @ [10]"
  have r: "parse_lsusb ?out = Inr (enum_of [(pystr_of ''001'', pystr_of ''002'', pystr_of ''2113'')])"
    by (simp add: parse_lsusb_spec line_ok_def is_blank_def well_formed_line_def line_fields_def
        py_split_char_def py_split_ws.simps py_isspace_def py_strip_chars_def py_strip_by_def)
  have "length (filter (\<lambda>l. \<not> is_blank l) (py_split_char 10 ?out)) = 1"
    by (simp add: py_split_char_def is_blank_def py_isspace_def)
  with parse_lsusb_count [OF r] show ?thesis by simp
qed

text \<open>C13: a blank or whitespace-only line contributes no handle and does not shift the
  others: inserting one between two lines leaves the result unchanged.\<close>

theorem parse_lsusb_blank_line:
  assumes "is_blank b" and "10 \<notin> set b"
  shows "parse_lsusb (xs @ [10] @ b @ [10] @ ys) = parse_lsusb (xs @ [10] @ ys)"
proof -
  have "py_split_char 10 (xs @ [10] @ b @ [10] @ ys) = py_split_char 10 xs @ [b] @ py_split_char 10 ys"
    using assms(2) by (simp add: py_split_char_sep_append py_split_char_no_sep)
  moreover have "py_split_char 10 (xs @ [10] @ ys) = py_split_char 10 xs @ py_split_char 10 ys"
    by (simp add: py_split_char_sep_append)
  ultimately show ?thesis using assms(1) by (simp add: parse_lsusb_spec line_ok_def)
qed

theorem parse_lsusb_blank_line_witness:
  "parse_lsusb (pystr_of ''a'' @ [10] @ [32, 9] @ [10] @ pystr_of ''b'') =
     parse_lsusb (pystr_of ''a'' @ [10] @ pystr_of ''b'')"
  by (rule parse_lsusb_blank_line) (simp_all add: is_blank_def py_isspace_def)

text \<open>C14: on a listing in \<^verbatim>\<open>lsusb\<close>'s format the enumerator recovers, for every
  device in listing order, its bus, its device number without the colon and its product id;
  the trailing newline's empty last line is skipped. The specification's example
  \<^verbatim>\<open>Bus 002 Device 004: ID 413c:301a Dell Computer Corp.\<close> is the witness.\<close>

theorem parse_lsusb_listing:
  assumes "\<forall>e \<in> set es. entry_ok e"
  shows "parse_lsusb (lsusb_output es) =
           Inr (enum_of (map (\<lambda>e. (usb_bus e, usb_dev e, usb_pid e)) es))"
proof -
  have "lsusb_output es = concat (map (\<lambda>l. l @ [10]) (map lsusb_line es))"
    by (simp add: lsusb_output_def comp_def)
  also have "py_split_char 10 \<dots> = map lsusb_line es @ [[]]"
    using assms by (intro py_split_char_lines) (auto simp: lsusb_line_ok)
  finally have lines: "py_split_char 10 (lsusb_output es) = map lsusb_line es @ [[]]" .
  have filt: "filter (\<lambda>l. \<not> is_blank l) (map lsusb_line es @ [[]]) = map lsusb_line es"
    using assms by (simp add: is_blank_def [of "[]"] lsusb_line_ok filter_id_conv)
  have fields: "map line_fields (map lsusb_line es) = map (\<lambda>e. (usb_bus e, usb_dev e, usb_pid e)) es"
    using assms by (simp add: lsusb_line_ok)
  have ok: "\<forall>l \<in> set (map lsusb_line es @ [[]]). line_ok l"
    using assms by (auto simp: line_ok_def is_blank_def [of "[]"] lsusb_line_ok)
  show ?thesis
    unfolding parse_lsusb_spec lines filt fields using ok by (rule if_P)
qed

theorem parse_lsusb_listing_witness:
  "parse_lsusb (lsusb_output
     [\<lparr>usb_bus = pystr_of ''002'', usb_dev = pystr_of ''004'', usb_vid = pystr_of ''413c'',
       usb_pid = pystr_of ''301a'', usb_desc = map pystr_of [''Dell'', ''Computer'', ''Corp.'']\<rparr>]) =
   Inr (enum_of [(pystr_of ''002'', pystr_of ''004'', pystr_of ''301a'')])"
  using parse_lsusb_listing [of "[\<lparr>usb_bus = pystr_of ''002'', usb_dev = pystr_of ''004'',
      usb_vid = pystr_of ''413c'', usb_pid = pystr_of ''301a'',
      usb_desc = map pystr_of [''Dell'', ''Computer'', ''Corp.'']\<rparr>]"]
  by (simp add: entry_ok_def py_isspace_def)

end
