(* ===== verification/Driver.thy ===== *)
theory Driver
  imports Enumerator
begin

text \<open>
  The recorder/replayer driver, lines 17--43 of \<^verbatim>\<open>src/create_report.py\<close>, and the
  whole script. For each index \<open>i\<close> of the enumerated lists the body builds the fixture
  base name \<open>bus.device\<close> and the device node path, echoes and runs
  \<^verbatim>\<open>umockdev-record <devname>\<close> and writes its captured output to
  \<open><base>.umockdev\<close>, then echoes and runs \<^verbatim>\<open>umockdev-record --ioctl=...\<close> around
  \<^verbatim>\<open>./hidreport <pid>\<close>, then echoes and runs \<^verbatim>\<open>umockdev-run\<close> replaying both
  fixtures around \<^verbatim>\<open>./hidreport <pid>\<close>. Exit statuses are never read. The body
  indexes the three lists again at the points where the source does
  (\<open>bus[i]\<close>, \<open>device[i]\<close> on lines 19 and 20, \<open>pid[i]\<close> on lines 33 and 40).
\<close>

section \<open>Names and command lines\<close>

definition basename :: "pystr \<Rightarrow> pystr \<Rightarrow> pystr" where
  "basename b d = b @ pystr_of ''.'' @ d"

definition devname :: "pystr \<Rightarrow> pystr \<Rightarrow> pystr" where
  "devname b d = pystr_of ''/dev/bus/usb/'' @ b @ pystr_of ''/'' @ d"

definition umockdev_file :: "pystr \<Rightarrow> pystr" where
  "umockdev_file base = base @ pystr_of ''.umockdev''"

definition ioctl_opt :: "pystr \<Rightarrow> pystr \<Rightarrow> pystr" where
  "ioctl_opt dev base = pystr_of ''--ioctl='' @ dev @ pystr_of ''='' @ base @ pystr_of ''.ioctl''"

definition record_cmd :: "pystr \<Rightarrow> pystr list" where
  "record_cmd dev = [pystr_of ''umockdev-record''] @ [dev]"

definition ioctl_record_cmd :: "pystr \<Rightarrow> pystr \<Rightarrow> pystr \<Rightarrow> pystr list" where
  "ioctl_record_cmd dev base p =
     [pystr_of ''umockdev-record''] @ [ioctl_opt dev base] @ [pystr_of ''./hidreport'', p]"

definition replay_cmd :: "pystr \<Rightarrow> pystr \<Rightarrow> pystr \<Rightarrow> pystr list" where
  "replay_cmd dev base p =
     [pystr_of ''umockdev-run'', pystr_of ''--device='' @ base @ pystr_of ''.umockdev'']
     @ [ioctl_opt dev base] @ [pystr_of ''./hidreport'', p]"

definition running_msg :: "pystr \<Rightarrow> pystr list \<Rightarrow> pystr" where
  "running_msg pre cmd = pre @ pystr_of ''Running: '' @ py_join [32] cmd"

section \<open>One device\<close>

definition record_device :: "'h env \<Rightarrow> enum_st \<Rightarrow> nat \<Rightarrow> (unit, 'h) pyio" where
  "record_device env es i =
     bindE (liftE (py_index (bus es) i)) (\<lambda>b.
     bindE (liftE (py_index (device es) i)) (\<lambda>d.
     let base = basename b d in
     bindE (liftE (py_index (bus es) i)) (\<lambda>b'.
     bindE (liftE (py_index (device es) i)) (\<lambda>d'.
     let dev = devname b' d';
         cmd1 = record_cmd dev in
     thenE (py_print (running_msg [] cmd1)) (
     bindE (popen_communicate env cmd1) (\<lambda>out.
     thenE (py_open_wb (umockdev_file base)) (
     thenE (py_file_write (umockdev_file base) out) (
     bindE (liftE (py_index (pid es) i)) (\<lambda>p.
     let cmd2 = ioctl_record_cmd dev base p in
     thenE (py_print (running_msg [10] cmd2)) (
     thenE (subprocess_call env cmd2) (
     bindE (liftE (py_index (pid es) i)) (\<lambda>p'.
     let cmd3 = replay_cmd dev base p' in
     thenE (py_print (running_msg [10] cmd3)) (
     thenE (subprocess_call env cmd3) (
     py_print [10]))))))))))))))"

fun record_from :: "'h env \<Rightarrow> enum_st \<Rightarrow> nat list \<Rightarrow> (unit, 'h) pyio" where
  "record_from env es [] = ret ()"
| "record_from env es (i # is) = thenE (record_device env es i) (record_from env es is)"

definition record_all :: "'h env \<Rightarrow> enum_st \<Rightarrow> (unit, 'h) pyio" where
  "record_all env es = record_from env es [0..<length (bus es)]"

definition main :: "'h env \<Rightarrow> (unit, 'h) pyio" where
  "main env = bindE (list_devices env) (record_all env)"

section \<open>Echoing\<close>

text \<open>The log announces every launch: each \<open>Spawn c\<close> comes right after the line
  \<open>Running: c\<close> (with the leading blank line the source prints before the second and third
  command).\<close>

definition announces :: "pystr \<Rightarrow> pystr list \<Rightarrow> bool" where
  "announces m c \<longleftrightarrow> m = running_msg [] c @ [10] \<or> m = running_msg [10] c @ [10]"

fun echoed :: "event list \<Rightarrow> bool" where
  "echoed [] = True"
| "echoed (Print m # Spawn c # es) = (announces m c \<and> echoed es)"
| "echoed (Spawn c # es) = False"
| "echoed (_ # es) = echoed es"

section \<open>The contract of one iteration\<close>

text \<open>
  What one iteration does for a handle \<open>(b, d, p)\<close>, with the list lookups gone: the three
  commands of the specification in order, each echoed first, and the descriptor capture
  written to \<open>b.d.umockdev\<close>.
\<close>

definition device_cmds :: "handle \<Rightarrow> pystr list list" where
  "device_cmds h =
     (case h of (b, d, p) \<Rightarrow>
        [record_cmd (devname b d), ioctl_record_cmd (devname b d) (basename b d) p,
         replay_cmd (devname b d) (basename b d) p])"

definition device_spec :: "'h env \<Rightarrow> handle \<Rightarrow> (unit, 'h) pyio" where
  "device_spec env h =
     (case h of (b, d, p) \<Rightarrow>
      let base = basename b d; dev = devname b d;
          cmd1 = record_cmd dev; cmd2 = ioctl_record_cmd dev base p; cmd3 = replay_cmd dev base p in
      thenE (py_print (running_msg [] cmd1)) (
      bindE (popen_communicate env cmd1) (\<lambda>out.
      thenE (py_open_wb (umockdev_file base)) (
      thenE (py_file_write (umockdev_file base) out) (
      thenE (py_print (running_msg [10] cmd2)) (
      thenE (subprocess_call env cmd2) (
      thenE (py_print (running_msg [10] cmd3)) (
      thenE (subprocess_call env cmd3) (
      py_print [10])))))))))"

section \<open>Lemmas: Echoing\<close>

lemma echoed_append: "echoed xs \<Longrightarrow> echoed ys \<Longrightarrow> echoed (xs @ ys)"
  by (induction xs rule: echoed.induct; cases ys rule: echoed.cases) auto

section \<open>Lemmas: The contract of one iteration\<close>

lemma handles_nth:
  "parallel es \<Longrightarrow> i < length (bus es) \<Longrightarrow> handles es ! i = (bus es ! i, device es ! i, pid es ! i)"
  by (simp add: handles_def parallel_def)

lemma length_handles: "parallel es \<Longrightarrow> length (handles es) = length (bus es)"
  by (simp add: handles_def parallel_def)

text \<open>Refinement: on parallel lists every lookup of the body succeeds, and the body is the
  contract applied to the \<open>i\<close>-th handle.\<close>

lemma record_device_spec:
  assumes "parallel es" "i < length (bus es)"
  shows "record_device env es i = device_spec env (handles es ! i)"
proof -
  have "py_index (bus es) i = Inr (bus es ! i)" "py_index (device es) i = Inr (device es ! i)"
    "py_index (pid es) i = Inr (pid es ! i)"
    using assms by (simp_all add: py_index_def parallel_def)
  then show ?thesis
    using assms by (simp add: record_device_def device_spec_def handles_nth bindE_liftE Let_def)
qed

lemma record_from_spec:
  "parallel es \<Longrightarrow> \<forall>i \<in> set is. i < length (bus es) \<Longrightarrow>
   record_from env es is = foldr (\<lambda>i k. thenE (device_spec env (handles es ! i)) k) is (ret ())"
  by (induction "is") (simp_all add: record_device_spec)

section \<open>Running one iteration\<close>

text \<open>The state and result of one iteration on every branch: each launch may fail, which
  ends the script with \<open>FileNotFoundError\<close> and the effects so far.\<close>

lemma device_spec_run:
  fixes b d p :: pystr
  defines "base \<equiv> basename b d" and "dev \<equiv> devname b d"
  defines "c1 \<equiv> record_cmd dev" and "c2 \<equiv> ioctl_record_cmd dev base p"
    and "c3 \<equiv> replay_cmd dev base p"
  defines "m1 \<equiv> Print (running_msg [] c1 @ [10])" and "m2 \<equiv> Print (running_msg [10] c2 @ [10])"
    and "m3 \<equiv> Print (running_msg [10] c3 @ [10])"
  shows "device_spec env (b, d, p) s =
    (case env c1 (world s) of
       Launch_failed \<Rightarrow> (Inl (FileNotFoundError (hd c1)), s\<lparr>log := log s @ [m1]\<rparr>)
     | Exited x1 o1 w1 \<Rightarrow>
         let w1' = w1\<lparr>files := (files w1)(umockdev_file base \<mapsto> o1)\<rparr> in
         (case env c2 w1' of
            Launch_failed \<Rightarrow>
              (Inl (FileNotFoundError (hd c2)), s\<lparr>world := w1', log := log s @ [m1, Spawn c1, m2]\<rparr>)
          | Exited x2 o2 w2 \<Rightarrow>
              (case env c3 w2 of
                 Launch_failed \<Rightarrow>
                   (Inl (FileNotFoundError (hd c3)),
                    s\<lparr>world := w2, log := log s @ [m1, Spawn c1, m2, Spawn c2, Child_output o2, m3]\<rparr>)
               | Exited x3 o3 w3 \<Rightarrow>
                   (Inr (),
                    s\<lparr>world := w3, log := log s @ [m1, Spawn c1, m2, Spawn c2, Child_output o2, m3,
                                                  Spawn c3, Child_output o3, Print [10, 10]]\<rparr>))))"
  unfolding assms device_spec_def
  by (simp add: thenE_def bindE_def py_print_def popen_communicate_def subprocess_call_def
      py_open_wb_def py_file_write_def Let_def split: proc_result.split)

lemma device_spec_launches:
  assumes "launches env"
  shows "\<exists>s'. device_spec env h s = (Inr (), s') \<and>
           spawned (log s') = spawned (log s) @ device_cmds h"
proof -
  obtain b d p where h: "h = (b, d, p)" by (cases h) auto
  show ?thesis
    using assms unfolding launches_def
    by (simp add: h device_spec_run device_cmds_def Let_def split: proc_result.split)
qed

lemma device_spec_result:
  "fst (device_spec env h s) = Inr () \<or> (\<exists>p. fst (device_spec env h s) = Inl (FileNotFoundError p))"
proof -
  obtain b d p where h: "h = (b, d, p)" by (cases h) auto
  show ?thesis by (simp add: h device_spec_run Let_def split: proc_result.split)
qed

lemma device_spec_echoed:
  "\<exists>new. log (snd (device_spec env h s)) = log s @ new \<and> echoed new"
proof -
  obtain b d p where h: "h = (b, d, p)" by (cases h) auto
  show ?thesis
    by (simp add: h device_spec_run Let_def announces_def split: proc_result.split)
qed

lemma device_spec_forget_status:
  "device_spec (\<lambda>c w. forget_status (env c w)) h s = device_spec env h s"
proof -
  obtain b d p where h: "h = (b, d, p)" by (cases h) auto
  show ?thesis
    by (simp add: h device_spec_run Let_def forget_status_def split: proc_result.split)
qed

section \<open>The loop\<close>

lemma record_from_launches:
  "launches env \<Longrightarrow> parallel es \<Longrightarrow> \<forall>i \<in> set is. i < length (bus es) \<Longrightarrow>
   \<exists>s'. record_from env es is s = (Inr (), s') \<and>
     spawned (log s') = spawned (log s) @ concat (map (\<lambda>i. device_cmds (handles es ! i)) is)"
proof (induction "is" arbitrary: s)
  case Nil
  then show ?case by (simp add: ret_def)
next
  case (Cons i "is")
  obtain s1 where s1: "device_spec env (handles es ! i) s = (Inr (), s1)"
    and sp1: "spawned (log s1) = spawned (log s) @ device_cmds (handles es ! i)"
    using device_spec_launches [OF Cons.prems(1)] by blast
  obtain s2 where s2: "record_from env es is s1 = (Inr (), s2)"
    and sp2: "spawned (log s2) = spawned (log s1) @ concat (map (\<lambda>i. device_cmds (handles es ! i)) is)"
    using Cons.IH [of s1] Cons.prems by auto
  show ?case
    using Cons.prems s1 s2 sp1 sp2 by (simp add: record_device_spec thenE_apply)
qed

lemma record_from_result:
  "parallel es \<Longrightarrow> \<forall>i \<in> set is. i < length (bus es) \<Longrightarrow>
   fst (record_from env es is s) = Inr () \<or> (\<exists>p. fst (record_from env es is s) = Inl (FileNotFoundError p))"
proof (induction "is" arbitrary: s)
  case Nil
  then show ?case by (simp add: ret_def)
next
  case (Cons i "is")
  obtain r1 s1 where run: "device_spec env (handles es ! i) s = (r1, s1)" by fastforce
  from device_spec_result [of env "handles es ! i" s] run consider
      "r1 = Inr ()" | p where "r1 = Inl (FileNotFoundError p)"
    by auto
  then show ?case
  proof cases
    case 1
    with Cons run show ?thesis by (simp add: record_device_spec thenE_apply)
  next
    case 2
    with Cons.prems run show ?thesis by (simp add: record_device_spec thenE_apply)
  qed
qed

lemma record_from_echoed:
  "parallel es \<Longrightarrow> \<forall>i \<in> set is. i < length (bus es) \<Longrightarrow>
   \<exists>new. log (snd (record_from env es is s)) = log s @ new \<and> echoed new"
proof (induction "is" arbitrary: s)
  case Nil
  then show ?case by (simp add: ret_def)
next
  case (Cons i "is")
  obtain r1 s1 where run: "device_spec env (handles es ! i) s = (r1, s1)" by fastforce
  obtain new1 where n1: "log s1 = log s @ new1" "echoed new1"
    using device_spec_echoed [of env "handles es ! i" s] run by auto
  show ?case
  proof (cases r1)
    case (Inl e)
    with Cons.prems run n1 show ?thesis by (simp add: record_device_spec thenE_apply)
  next
    case (Inr u)
    obtain new2 where n2: "log (snd (record_from env es is s1)) = log s1 @ new2" "echoed new2"
      using Cons.IH [of s1] Cons.prems by auto
    from Inr Cons.prems run have "record_from env es (i # is) s = record_from env es is s1"
      by (simp add: record_device_spec thenE_apply)
    with n1 n2 have "log (snd (record_from env es (i # is) s)) = log s @ (new1 @ new2)"
      by simp
    moreover have "echoed (new1 @ new2)" using n1 n2 by (simp add: echoed_append)
    ultimately show ?thesis by blast
  qed
qed

lemma record_from_forget_status:
  "parallel es \<Longrightarrow> \<forall>i \<in> set is. i < length (bus es) \<Longrightarrow>
   record_from (\<lambda>c w. forget_status (env c w)) es is = record_from env es is"
proof (induction "is")
  case (Cons i "is")
  have "device_spec (\<lambda>c w. forget_status (env c w)) (handles es ! i) = device_spec env (handles es ! i)"
    by (rule ext) (rule device_spec_forget_status)
  with Cons show ?case by (simp add: record_device_spec)
qed simp

lemma all_indices: "\<forall>i \<in> set [0..<length (bus es)]. i < length (bus es)"
  by simp

lemma map_device_cmds_indices:
  "parallel es \<Longrightarrow>
   map (\<lambda>i. device_cmds (handles es ! i)) [0..<length (bus es)] = map device_cmds (handles es)"
proof -
  assume "parallel es"
  then have "map (\<lambda>i. handles es ! i) [0..<length (bus es)] = handles es"
    using map_nth [of "handles es"] by (simp add: length_handles)
  then show ?thesis
    using map_map [of device_cmds "\<lambda>i. handles es ! i" "[0..<length (bus es)]"]
    by (simp add: comp_def)
qed

lemma record_all_launches:
  assumes "launches env" and "parallel es"
  shows "\<exists>s'. record_all env es s = (Inr (), s') \<and>
           spawned (log s') = spawned (log s) @ concat (map device_cmds (handles es))"
  using record_from_launches [OF assms all_indices, of s]
  by (simp add: record_all_def map_device_cmds_indices [OF assms(2)])

lemma record_all_forget_status:
  "parallel es \<Longrightarrow> record_all (\<lambda>c w. forget_status (env c w)) es = record_all env es"
  by (simp add: record_all_def record_from_forget_status)

lemma takeWhile_basename: "46 \<notin> set b \<Longrightarrow> takeWhile (\<lambda>c. c \<noteq> 46) (basename b d) = b"
  by (induction b) (auto simp: basename_def)

section \<open>Properties\<close>

text \<open>C3: the driver never raises \<open>IndexError\<close> on parallel lists: every \<open>bus[i]\<close>,
  \<open>device[i]\<close> and \<open>pid[i]\<close> it evaluates is in range; the only exception it can raise
  is \<open>FileNotFoundError\<close> from launching a program.\<close>

theorem record_all_no_index_error:
  assumes "parallel es"
  shows "fst (record_all env es s) = Inr () \<or>
         (\<exists>p. fst (record_all env es s) = Inl (FileNotFoundError p))"
  unfolding record_all_def using record_from_result [OF assms all_indices] .

theorem record_all_no_index_error_witness:
  "fst (record_all (\<lambda>c w. Launch_failed) (enum_of [([48], [49], [50])]) \<lparr>world = \<lparr>files = Map.empty, hw = ()\<rparr>, log = []\<rparr>) =
     Inl (FileNotFoundError (pystr_of ''umockdev-record''))"
proof -
  have "parallel (enum_of [([48], [49], [50])])" by (rule parallel_enum_of)
  from record_all_no_index_error [OF this, of "\<lambda>c w. Launch_failed" "\<lparr>world = \<lparr>files = Map.empty, hw = ()\<rparr>, log = []\<rparr>"] show ?thesis
    by (simp add: record_all_def record_device_def enum_of_def py_index_def thenE_def bindE_def
        liftE_def py_print_def popen_communicate_def record_cmd_def Let_def)
qed

text \<open>C4: after an iteration the descriptor fixture \<open>bus.device.umockdev\<close> holds exactly
  the bytes \<^verbatim>\<open>umockdev-record\<close> printed, whatever the file held before (mode
  \<open>'wb'\<close> truncates), provided the two later commands do not write that file.\<close>

theorem record_device_fixture:
  fixes es :: enum_st and i :: nat
  defines "f \<equiv> umockdev_file (basename (bus es ! i) (device es ! i))"
    and "dev \<equiv> devname (bus es ! i) (device es ! i)"
    and "base \<equiv> basename (bus es ! i) (device es ! i)"
  assumes "parallel es" and "i < length (bus es)"
    and "env (record_cmd dev) (world s) = Exited x out w"
    and "keeps_file env (ioctl_record_cmd dev base (pid es ! i)) f"
    and "keeps_file env (replay_cmd dev base (pid es ! i)) f"
  shows "files (world (snd (record_device env es i s))) f = Some out"
proof -
  let ?c2 = "ioctl_record_cmd dev base (pid es ! i)" and ?c3 = "replay_cmd dev base (pid es ! i)"
  let ?w1 = "w\<lparr>files := (files w)(f \<mapsto> out)\<rparr>"
  have run: "record_device env es i s =
      (case env ?c2 ?w1 of
         Launch_failed \<Rightarrow> (Inl (FileNotFoundError (hd ?c2)), s\<lparr>world := ?w1, log := log s @ [
           Print (running_msg [] (record_cmd dev) @ [10]), Spawn (record_cmd dev),
           Print (running_msg [10] ?c2 @ [10])]\<rparr>)
       | Exited x2 o2 w2 \<Rightarrow>
           (case env ?c3 w2 of
              Launch_failed \<Rightarrow> (Inl (FileNotFoundError (hd ?c3)), s\<lparr>world := w2, log := log s @ [
                Print (running_msg [] (record_cmd dev) @ [10]), Spawn (record_cmd dev),
                Print (running_msg [10] ?c2 @ [10]), Spawn ?c2, Child_output o2,
                Print (running_msg [10] ?c3 @ [10])]\<rparr>)
            | Exited x3 o3 w3 \<Rightarrow> (Inr (), s\<lparr>world := w3, log := log s @ [
                Print (running_msg [] (record_cmd dev) @ [10]), Spawn (record_cmd dev),
                Print (running_msg [10] ?c2 @ [10]), Spawn ?c2, Child_output o2,
                Print (running_msg [10] ?c3 @ [10]), Spawn ?c3, Child_output o3, Print [10, 10]]\<rparr>)))"
    using assms(6) unfolding f_def dev_def base_def
    by (simp add: record_device_spec [OF assms(4,5)] handles_nth [OF assms(4,5)] device_spec_run
        Let_def)
  have w1: "files ?w1 f = Some out" by simp
  show ?thesis
  proof (cases "env ?c2 ?w1")
    case Launch_failed
    then show ?thesis by (simp add: run)
  next
    case (Exited x2 o2 w2)
    have w2: "files w2 f = Some out" using keeps_fileD [OF assms(7) Exited] w1 by simp
    show ?thesis
    proof (cases "env ?c3 w2")
      case Launch_failed
      with Exited w2 show ?thesis by (simp add: run)
    next
      case E3: (Exited x3 o3 w3)
      have "files w3 f = Some out" using keeps_fileD [OF assms(8) E3] w2 by simp
      with Exited E3 show ?thesis by (simp add: run)
    qed
  qed
qed

theorem record_device_fixture_witness:
  "files (world (snd (record_device (\<lambda>c w. Exited 0 [0x41] w) (enum_of [([48], [49], [50])]) 0
      \<lparr>world = \<lparr>files = [umockdev_file (basename [48] [49]) \<mapsto> [0x5A, 0x5A]], hw = ()\<rparr>, log = []\<rparr>)))
     (umockdev_file (basename [48] [49])) = Some [0x41]"
proof -
  have k: "keeps_file (\<lambda>c w. Exited 0 [0x41] w :: unit proc_result) c f" for c f
    by (simp add: keeps_file_def)
  show ?thesis
    using record_device_fixture [OF parallel_enum_of, of 0 "[([48], [49], [50])]"
        "\<lambda>c w. Exited 0 [0x41] w" "\<lparr>world = \<lparr>files = [umockdev_file (basename [48] [49]) \<mapsto> [0x5A, 0x5A]], hw = ()\<rparr>, log = []\<rparr>"]
      k by (simp add: enum_of_def)
qed

text \<open>C6: every command the driver launches is announced just before, by the line
  \<open>Running: <command line>\<close> (after a blank line for the second and third command).\<close>

theorem record_all_echoed:
  assumes "parallel es"
  shows "\<exists>new. log (snd (record_all env es s)) = log s @ new \<and> echoed new"
  unfolding record_all_def using record_from_echoed [OF assms all_indices] .

theorem record_all_echoed_witness:
  "echoed (log (snd (record_all (\<lambda>c w. Exited 0 [] w) (enum_of [([48], [49], [50])])
     \<lparr>world = \<lparr>files = Map.empty, hw = ()\<rparr>, log = []\<rparr>)))"
proof -
  have p: "parallel (enum_of [([48], [49], [50])])" by (rule parallel_enum_of)
  show ?thesis
    using record_all_echoed [OF p, where env = "\<lambda>c w. Exited 0 [] w"
        and s = "\<lparr>world = \<lparr>files = Map.empty, hw = ()\<rparr>, log = []\<rparr>"]
    by auto
qed

text \<open>C11: if \<^verbatim>\<open>umockdev-record\<close> cannot be launched for a device, the script stops with
  \<open>FileNotFoundError\<close> right after echoing the command: no fixture is written and no
  further command runs.\<close>

theorem record_device_launch_failure:
  assumes "parallel es" and "i < length (bus es)"
    and "env (record_cmd (devname (bus es ! i) (device es ! i))) (world s) = Launch_failed"
  shows "record_device env es i s =
           (Inl (FileNotFoundError (pystr_of ''umockdev-record'')),
            s\<lparr>log := log s @ [Print (running_msg [] (record_cmd (devname (bus es ! i) (device es ! i))) @ [10])]\<rparr>)"
  using assms(3)
  by (simp add: record_device_spec [OF assms(1,2)] handles_nth [OF assms(1,2)] device_spec_run
      record_cmd_def)

theorem record_device_launch_failure_witness:
  "fst (record_device (\<lambda>c w. Launch_failed) (enum_of [([48], [49], [50])]) 0 \<lparr>world = \<lparr>files = Map.empty, hw = ()\<rparr>, log = []\<rparr>) =
     Inl (FileNotFoundError (pystr_of ''umockdev-record''))"
  using record_device_launch_failure [OF parallel_enum_of, of 0 "[([48], [49], [50])]" "\<lambda>c w. Launch_failed" "\<lparr>world = \<lparr>files = Map.empty, hw = ()\<rparr>, log = []\<rparr>"]
  by (simp add: enum_of_def)

text \<open>C23: the fixture base name \<open>bus.device\<close> determines bus and device when the bus
  field contains no dot (as \<^verbatim>\<open>lsusb\<close>'s three-digit bus numbers do), so distinct devices
  get distinct fixture files.\<close>

theorem basename_injective:
  assumes "46 \<notin> set b1" and "46 \<notin> set b2" and "basename b1 d1 = basename b2 d2"
  shows "b1 = b2 \<and> d1 = d2"
proof -
  have "b1 = b2"
    using takeWhile_basename [OF assms(1), of d1] takeWhile_basename [OF assms(2), of d2] assms(3)
    by simp
  with assms(3) show ?thesis by (simp add: basename_def)
qed

theorem basename_injective_witness:
  "basename (pystr_of ''002'') (pystr_of ''004'') \<noteq> basename (pystr_of ''002'') (pystr_of ''005'')"
proof
  assume "basename (pystr_of ''002'') (pystr_of ''004'') = basename (pystr_of ''002'') (pystr_of ''005'')"
  from basename_injective [OF _ _ this] show False by simp
qed

text \<open>Without the side condition the base name is ambiguous: bus \<open>1.2\<close> with device
  \<open>3\<close> and bus \<open>1\<close> with device \<open>2.3\<close> share their fixture files.\<close>

lemma basename_collision:
  "basename (pystr_of ''1.2'') (pystr_of ''3'') = basename (pystr_of ''1'') (pystr_of ''2.3'')"
  by (simp add: basename_def)

end
