(* ===== verification/Spec2Isabelle.thy ===== *)
theory Spec2Isabelle
  imports Driver
begin

text \<open>
  \<^bold>\<open>A verification model of \<^verbatim>\<open>src/create_report.py\<close> (umockdev-hid).\<close>

  The program is one Python script in two parts that run in sequence. The
  \<^emph>\<open>device enumerator\<close> (lines 4--15) runs \<^verbatim>\<open>lsusb -d 413c:\<close>, decodes its output
  as UTF-8 and collects, from every non-blank line, the bus number, the device number and
  the product id into three parallel lists. The \<^emph>\<open>recorder/replayer driver\<close>
  (lines 17--43) then, for each index into those lists, echoes and runs
  \<^verbatim>\<open>umockdev-record\<close> on the device node and saves its output as
  \<open>bus.device.umockdev\<close>, echoes and runs \<^verbatim>\<open>umockdev-record --ioctl\<close> around
  \<^verbatim>\<open>./hidreport <pid>\<close>, and echoes and runs \<^verbatim>\<open>umockdev-run\<close> replaying both
  fixtures around \<^verbatim>\<open>./hidreport <pid>\<close>. The parts share only the three lists; all
  other interaction goes through external programs and the working directory.

  \<^bold>\<open>Theories.\<close>
  \<^item> \<open>Prelude\<close>: code points, \<open>str\<close> as \<open>pystr\<close> (code point lists),
    \<open>bytes\<close> as lists of \<open>8 word\<close>; the exceptions \<open>py_error\<close> (\<open>IndexError\<close>,
    \<open>UnicodeDecodeError\<close>, \<open>FileNotFoundError\<close>); \<open>ebind\<close> for exceptions as
    \<open>Inl\<close>; list and base-64 digit lemmas.
  \<^item> \<open>PyStr\<close>: the built-ins the script calls on strings and lists, after CPython:
    \<open>str.isspace\<close> (\<open>py_isspace\<close>), \<open>strip()\<close> and \<open>strip(':')\<close>
    (\<open>py_strip\<close>, \<open>py_strip_chars\<close>), \<open>split()\<close> (\<open>py_split_ws\<close>, a
    \<^theory_text>\<open>function\<close> with a measure), \<open>split(sep)\<close> (\<open>py_split_char\<close>),
    \<open>' '.join\<close> (\<open>py_join\<close>) and \<open>xs[i]\<close> (\<open>py_index\<close>, \<open>IndexError\<close> past
    the end). Claims C18--C22: the split/join round trips, \<open>split()\<close> characterised
    completely (its tokens are the maximal whitespace-free runs, through the layout
    \<open>weave\<close>/\<open>ws_layout\<close>), what \<open>strip()\<close> leaves.
  \<^item> \<open>Utf8\<close>: \<open>bytes.decode('utf-8')\<close> (line 6) as CPython's strict decoder
    (\<open>utf8_seq\<close>, \<open>utf8_decode_at\<close>, \<open>py_decode_utf8\<close>), against the RFC 3629
    encoder. Claims C15--C17: decoding inverts encoding on scalar values, accepted input is
    exactly an encoding, an error names the first rejected sequence.
  \<^item> \<open>PyIO\<close>: the script's effects. A state \<open>'h st\<close> holds the \<open>world\<close> (the
    working directory's files and an abstract rest \<open>'h\<close>) and the \<open>log\<close> of what an
    operator sees (\<open>Print\<close>, \<open>Spawn\<close>, \<open>Child_output\<close>). Statements are
    computations \<open>('a, 'h) pyio\<close> returning a value or an exception together with the
    state reached (\<open>bindE\<close>, \<open>thenE\<close>). The external programs are the interface
    \<open>'h env\<close>: a function from a command line and the world to \<open>Launch_failed\<close> or
    \<open>Exited status stdout world'\<close>. Primitives: \<open>print\<close>, \<open>Popen(..).communicate()\<close>,
    \<open>subprocess.call\<close>, \<open>open(.., 'wb')\<close> and \<open>write\<close>.
  \<^item> \<open>Enumerator\<close>: \<open>lsusb_cmd\<close>, the loop state \<open>enum_st\<close> (the lists \<open>bus\<close>,
    \<open>device\<close>, \<open>pid\<close>), the loop body \<open>enum_body\<close> with its three appends in source
    order, the loop \<open>enum_lines\<close>, \<open>parse_lsusb\<close> and \<open>list_devices\<close>. The
    specification's column rule is \<open>line_fields\<close> on \<open>well_formed_line\<close>s. Claims C2,
    C7, C8, C12--C14: the exact result of the parser, the parallel-lists invariant, the
    error on a malformed line, counting, blank lines, and the round trip from a listing in
    \<^verbatim>\<open>lsusb\<close>'s line format (\<open>lsusb_output\<close>, written after the specification's
    example line: \<^verbatim>\<open>lsusb\<close> is not part of the repository) to the devices' fields.
  \<^item> \<open>Driver\<close>: the file and command names, the loop body \<open>record_device\<close> (which
    indexes the lists where the source does), the loop \<open>record_from\<close>/\<open>record_all\<close>
    over \<open>range(len(bus))\<close>, and \<open>main\<close>. Its contract per handle is
    \<open>device_spec\<close> with the command list \<open>device_cmds\<close>; \<open>record_device_spec\<close>
    refines the body to it on parallel lists. Claims C3, C4, C6, C11, C23: no
    \<open>IndexError\<close> in the driver, the descriptor fixture holds exactly the capture,
    every launch is echoed first, a missing \<^verbatim>\<open>umockdev-record\<close> stops the script,
    fixture names are unambiguous for dot-free bus numbers.
  \<^item> This theory: the properties of the whole script (C1, C5, C9, C10, C24): the commands it
    launches are \<^verbatim>\<open>lsusb\<close> and then the three commands of each non-blank line in order;
    exit statuses never matter; malformed or undecodable listings and a missing
    \<^verbatim>\<open>lsusb\<close> stop it before any device is touched.

  \<^bold>\<open>Assumptions.\<close> The external programs are arbitrary (every theorem quantifies over
  \<open>env\<close>) but each returns: a hanging program is not modelled. Where a theorem needs more
  it says so: \<open>launches env\<close> (every program is installed) and \<open>keeps_file\<close> (a
  later command does not rewrite the descriptor fixture). There is no loop whose termination
  is in doubt: \<open>split()\<close> recurses on a strictly shorter string and every other loop is
  over a list, so no fuel is needed.

  \<^bold>\<open>Not modelled.\<close> Writes to a file can fail (\<open>OSError\<close>) and \<open>Popen\<close> can fail
  for reasons other than a missing program: both are left out, as is the buffering of the
  script's own \<open>print\<close> output relative to the children's output. \<open>str.split(sep)\<close> is
  modelled for one-character separators, the only ones the script uses; indices are
  non-negative, as all the script's are.
\<close>

lemma main_run:
  "main env s = (case list_devices env s of (Inl e, s') \<Rightarrow> (Inl e, s') | (Inr es, s') \<Rightarrow> record_all env es s')"
  by (simp add: main_def bindE_def)

lemma main_forget_status: "main (\<lambda>c w. forget_status (env c w)) s = main env s"
proof -
  have "list_devices (\<lambda>c w. forget_status (env c w)) s = list_devices env s"
    by (simp add: list_devices_forget_status)
  then show ?thesis
    by (auto simp: main_run record_all_forget_status dest: list_devices_parallel split: prod.split sum.split)
qed

section \<open>Properties of the whole script\<close>

text \<open>C1: when every program can be launched and the listing is well formed, the script
  launches \<^verbatim>\<open>lsusb\<close> and then, for each non-blank line in order, exactly the three
  commands the specification names (record the device, record its ioctls around
  \<^verbatim>\<open>./hidreport\<close>, replay them), with arguments built from that line's bus, device and
  product id; and it ends without an exception.\<close>

theorem main_spawns_plan:
  assumes "launches env" and "env lsusb_cmd (world s) = Exited x raw w"
    and "py_decode_utf8 raw = Inr out"
    and "\<forall>l \<in> set (py_split_char 10 out). is_blank l \<or> well_formed_line l"
  shows "fst (main env s) = Inr () \<and>
         spawned (log (snd (main env s))) =
           spawned (log s) @ lsusb_cmd #
             concat (map (\<lambda>l. device_cmds (line_fields l)) (filter (\<lambda>l. \<not> is_blank l) (py_split_char 10 out)))"
proof -
  let ?hs = "map line_fields (filter (\<lambda>l. \<not> is_blank l) (py_split_char 10 out))"
  let ?s1 = "s\<lparr>world := w, log := log s @ [Spawn lsusb_cmd]\<rparr>"
  have parse: "parse_lsusb out = Inr (enum_of ?hs)"
    using assms(4) by (simp add: parse_lsusb_spec line_ok_def)
  have "list_devices env s = (Inr (enum_of ?hs), ?s1)"
    using list_devices_run(1) [where env = env and s = s, OF assms(2)] assms(3) parse by simp
  then have m: "main env s = record_all env (enum_of ?hs) ?s1"
    by (simp add: main_run)
  obtain s' where "record_all env (enum_of ?hs) ?s1 = (Inr (), s')"
    and "spawned (log s') = spawned (log ?s1) @ concat (map device_cmds (handles (enum_of ?hs)))"
    using record_all_launches [OF assms(1) parallel_enum_of] by blast
  then show ?thesis by (simp add: m handles_enum_of comp_def)
qed

theorem main_spawns_plan_witness:
  "spawned (log (snd (main (\<lambda>c w. if c = lsusb_cmd
        then Exited 0 (map of_nat (pystr_of ''Bus 002 Device 004: ID 413c:301a Dell'' @ [10])) w
        else Exited 1 [] w)
      \<lparr>world = \<lparr>files = Map.empty, hw = ()\<rparr>, log = []\<rparr>))) =
   [lsusb_cmd, record_cmd (devname (pystr_of ''002'') (pystr_of ''004'')),
    ioctl_record_cmd (devname (pystr_of ''002'') (pystr_of ''004'')) (basename (pystr_of ''002'') (pystr_of ''004'')) (pystr_of ''301a''),
    replay_cmd (devname (pystr_of ''002'') (pystr_of ''004'')) (basename (pystr_of ''002'') (pystr_of ''004'')) (pystr_of ''301a'')]"
proof -
  let ?raw = "map of_nat (pystr_of ''Bus 002 Device 004: ID 413c:301a Dell'' @ [10]) :: bytes"
  let ?env = "\<lambda>c w. if c = lsusb_cmd then Exited 0 ?raw w else Exited 1 [] w"
  let ?out = "pystr_of ''Bus 002 Device 004: ID 413c:301a Dell'' @ [10]"
  let ?s = "\<lparr>world = \<lparr>files = Map.empty, hw = ()\<rparr>, log = []\<rparr> :: unit st"
  have l: "launches ?env" by (simp add: launches_def)
  have e: "?env lsusb_cmd (world ?s) = Exited 0 ?raw (world ?s)" by simp
  have d: "py_decode_utf8 ?raw = Inr ?out" by (simp add: py_decode_utf8_def utf8_seq_def)
  have lines: "py_split_char 10 ?out = [pystr_of ''Bus 002 Device 004: ID 413c:301a Dell'', []]"
    by (simp add: py_split_char_def)
  have ok: "\<forall>l \<in> set (py_split_char 10 ?out). is_blank l \<or> well_formed_line l"
    unfolding lines by (simp add: is_blank_def well_formed_line_def py_split_ws.simps py_isspace_def)
  show ?thesis
    using main_spawns_plan [OF l e d ok] unfolding lines
    by (simp add: is_blank_def py_isspace_def line_fields_def device_cmds_def py_split_ws.simps
        py_strip_chars_def py_strip_by_def py_split_char_def)
qed


text \<open>C5: the script never looks at an exit status: two environments whose programs differ
  only in the statuses they exit with lead to the same run, exception and state alike.\<close>

theorem main_status_blind:
  assumes "\<forall>c w. forget_status (env c w) = forget_status (env' c w)"
  shows "main env s = main env' s"
proof -
  have "(\<lambda>c w. forget_status (env c w)) = (\<lambda>c w. forget_status (env' c w))"
    using assms by blast
  then show ?thesis by (metis main_forget_status)
qed

theorem main_status_blind_witness:
  "main (\<lambda>c w. Exited 1 [] w) \<lparr>world = \<lparr>files = Map.empty, hw = ()\<rparr>, log = []\<rparr> =
   main (\<lambda>c w. Exited 0 [] w) \<lparr>world = \<lparr>files = Map.empty, hw = ()\<rparr>, log = []\<rparr>"
  by (rule main_status_blind) (simp add: forget_status_def)

text \<open>C9: a non-blank line that is not well formed stops the script with \<open>IndexError\<close>
  right after \<^verbatim>\<open>lsusb\<close>: no device command runs and no fixture is written.\<close>

theorem main_malformed_line:
  assumes "env lsusb_cmd (world s) = Exited x raw w" and "py_decode_utf8 raw = Inr out"
    and "l \<in> set (py_split_char 10 out)" and "\<not> is_blank l" and "\<not> well_formed_line l"
  shows "main env s = (Inl IndexError, s\<lparr>world := w, log := log s @ [Spawn lsusb_cmd]\<rparr>)"
proof -
  have "parse_lsusb out = Inl IndexError"
    using assms(3-5) by (auto simp: parse_lsusb_spec line_ok_def)
  then show ?thesis
    using list_devices_run(1) [where env = env and s = s, OF assms(1)] assms(2) by (simp add: main_run)
qed

theorem main_malformed_line_witness:
  "fst (main (\<lambda>c w. Exited 0 (map of_nat (pystr_of ''Bus 002 Device'')) w)
          \<lparr>world = \<lparr>files = Map.empty, hw = ()\<rparr>, log = []\<rparr>) = Inl IndexError \<and>
   log (snd (main (\<lambda>c w. Exited 0 (map of_nat (pystr_of ''Bus 002 Device'')) w)
          \<lparr>world = \<lparr>files = Map.empty, hw = ()\<rparr>, log = []\<rparr>)) = [Spawn lsusb_cmd]"
proof -
  let ?l = "pystr_of ''Bus 002 Device''"
  let ?s = "\<lparr>world = \<lparr>files = Map.empty, hw = ()\<rparr>, log = []\<rparr> :: unit st"
  have d: "py_decode_utf8 (map of_nat ?l) = Inr ?l"
    by (simp add: py_decode_utf8_def utf8_seq_def)
  have l: "?l \<in> set (py_split_char 10 ?l)" by (simp add: py_split_char_def)
  have b: "\<not> is_blank ?l" by (simp add: is_blank_def py_isspace_def)
  have m: "\<not> well_formed_line ?l"
    by (simp add: well_formed_line_def py_split_ws.simps py_isspace_def)
  from main_malformed_line [where env = "\<lambda>c w. Exited 0 (map of_nat ?l) w" and s = ?s
      and w = "world ?s", OF _ d l b m]
  show ?thesis by simp
qed

text \<open>C10: output of \<^verbatim>\<open>lsusb\<close> that is not valid UTF-8 stops the script with
  \<open>UnicodeDecodeError\<close> at an offset inside that output, right after \<^verbatim>\<open>lsusb\<close>: no
  device command runs.\<close>

theorem main_decode_error:
  assumes "env lsusb_cmd (world s) = Exited x raw w" and "py_decode_utf8 raw = Inl e"
  shows "main env s = (Inl e, s\<lparr>world := w, log := log s @ [Spawn lsusb_cmd]\<rparr>) \<and>
         (\<exists>j. e = UnicodeDecodeError j \<and> j < length raw)"
proof -
  have "\<exists>j. e = UnicodeDecodeError j \<and> j < length raw"
    using utf8_decode_at_Inl [of 0 raw e] assms(2) by (auto simp: py_decode_utf8_def)
  moreover have "main env s = (Inl e, s\<lparr>world := w, log := log s @ [Spawn lsusb_cmd]\<rparr>)"
    using list_devices_run(1) [where env = env and s = s, OF assms(1)] assms(2) by (simp add: main_run)
  ultimately show ?thesis by blast
qed

theorem main_decode_error_witness:
  "fst (main (\<lambda>c w. Exited 0 [0x42, 0xFF] w) \<lparr>world = \<lparr>files = Map.empty, hw = ()\<rparr>, log = []\<rparr>) =
     Inl (UnicodeDecodeError 1)"
proof -
  have "py_decode_utf8 [0x42, 0xFF] = Inl (UnicodeDecodeError 1)"
    by (simp add: py_decode_utf8_def utf8_seq_def)
  from main_decode_error [OF _ this, where env = "\<lambda>c w. Exited 0 [0x42, 0xFF] w"
      and s = "\<lparr>world = \<lparr>files = Map.empty, hw = ()\<rparr>, log = []\<rparr>"]
  show ?thesis by simp
qed

text \<open>C24: without \<^verbatim>\<open>lsusb\<close> the script raises \<open>FileNotFoundError\<close> and changes
  nothing.\<close>

theorem main_lsusb_missing:
  assumes "env lsusb_cmd (world s) = Launch_failed"
  shows "main env s = (Inl (FileNotFoundError (pystr_of ''lsusb'')), s)"
  using list_devices_run(2) [where env = env and s = s, OF assms] by (simp add: main_run)

theorem main_lsusb_missing_witness:
  "main (\<lambda>c w. Launch_failed) \<lparr>world = \<lparr>files = Map.empty, hw = ()\<rparr>, log = []\<rparr> =
     (Inl (FileNotFoundError (pystr_of ''lsusb'')), \<lparr>world = \<lparr>files = Map.empty, hw = ()\<rparr>, log = []\<rparr>)"
  by (rule main_lsusb_missing) simp

end
